theory Spec2Isabelle
  imports Main
begin

section \<open>Semantic analysis for declarations (lib/Sema/TypeCheckDecl.cpp)\<close>

subsection \<open>Types\<close>

text \<open>
  Semantic types.  A tuple field carries its element type, its label and whether it has
  a default value (\<open>hasInit\<close>).  An archetype carries the number of its allocation: two
  archetypes made by two calls of \<open>ArchetypeType::getNew\<close> are different objects even
  when name, conformance list and index agree.  The model has no sugared types, so
  \<open>getAs\<close>, \<open>castTo\<close> and \<open>dyn_cast\<close> look at the same constructor.
\<close>

datatype NominalKind = OneOfKind | StructKind | ClassKind

datatype ty =
    ErrorType
  | IdentifierType string
  | NominalType NominalKind string
  | UnboundGenericType string
  | ProtocolType string
  | ProtocolCompositionType "string list"
  | TupleType "(ty \<times> string \<times> bool) list"
  | FunctionType ty ty
  | PolymorphicFunctionType ty ty nat
  | LValueType ty
  | ArchetypeType nat string "ty list" "nat option"

fun getInput :: "ty \<Rightarrow> ty option" where
  "getInput (FunctionType i r) = Some i"
| "getInput (PolymorphicFunctionType i r g) = Some i"
| "getInput t = None"

fun getResult :: "ty \<Rightarrow> ty option" where
  "getResult (FunctionType i r) = Some r"
| "getResult (PolymorphicFunctionType i r g) = Some r"
| "getResult t = None"

fun getFields :: "ty \<Rightarrow> (ty \<times> string \<times> bool) list option" where
  "getFields (TupleType fs) = Some fs"
| "getFields t = None"

fun isLValueType :: "ty \<Rightarrow> bool" where
  "isLValueType (LValueType t) = True"
| "isLValueType t = False"

text \<open>\<open>isExistentialType(Protocols)\<close>: the protocols of a protocol type or composition.\<close>

fun existentialProtocols :: "ty \<Rightarrow> string list option" where
  "existentialProtocols (ProtocolType p) = Some [p]"
| "existentialProtocols (ProtocolCompositionType ps) = Some ps"
| "existentialProtocols t = None"

definition isExistentialType :: "ty \<Rightarrow> bool" where
  "isExistentialType t = (existentialProtocols t \<noteq> None)"

subsection \<open>Attributes, diagnostics and the checker state\<close>

datatype Associativity = NonAssoc | LeftAssoc | RightAssoc

text \<open>
  Modelled from the spec: the class \<open>InfixData\<close> is declared in swift/AST/Attr.h, which
  is not part of the sources at hand.  The spec describes \<open>Infix\<close> as carrying
  associativity and precedence; the default-constructed \<open>InfixData()\<close> is the
  value that is not infix, here \<open>None\<close>.
\<close>

type_synonym InfixData = "(Associativity \<times> nat) option"

record DeclAttributes =
  Infix :: InfixData
  Postfix :: bool
  Assignment :: bool
  Conversion :: bool
  Byref :: bool
  AutoClosure :: bool

definition isInfix :: "DeclAttributes \<Rightarrow> bool" where
  "isInfix a = (Infix a \<noteq> None)"

datatype diag =
    nonprotocol_inherit ty
  | requires_conformance_nonprotocol ty ty
  | var_type_not_materializable ty
  | while_converting_var_init ty
  | subscript_not_member
  | oneof_element_not_materializable
  | non_nominal_extension bool ty
  | constructor_not_member
  | destructor_not_member
  | operator_not_func
  | invalid_arg_count_for_operator
  | custom_operator_addressof
  | infix_not_an_operator
  | invalid_infix_left_input
  | postfix_not_an_operator
  | invalid_postfix_input
  | invalid_decl_attribute string
  | assignment_without_byref
  | assignment_nonvoid ty
  | conversion_not_instance_method string
  | conversion_params string
  | binops_infix_left

text \<open>
  The ways a visit can abort instead of returning: a null type is dereferenced, a
  \<open>cast\<close> or \<open>castTo\<close> meets another class, an \<open>assert\<close> fails, or
  \<open>llvm_unreachable\<close> is reached.
\<close>

datatype abort = NullType | BadCast | AssertionFailed | Unreachable

subsection \<open>Value declarations as attribute validation sees them\<close>

text \<open>
  The context of a declaration, as far as this file asks for it: a translation unit or
  another module, a oneof (with its declared type in context), a struct, a class, a
  protocol, an extension, or a function.
\<close>

datatype DeclContext =
    TranslationUnitCtx
  | OtherModuleCtx
  | OneOfCtx ty
  | StructCtx
  | ClassCtx
  | ProtocolCtx
  | ExtensionCtx
  | FuncCtx

fun isModuleContext :: "DeclContext \<Rightarrow> bool" where
  "isModuleContext TranslationUnitCtx = True"
| "isModuleContext OtherModuleCtx = True"
| "isModuleContext c = False"

fun isTypeContext :: "DeclContext \<Rightarrow> bool" where
  "isTypeContext (OneOfCtx t) = True"
| "isTypeContext StructCtx = True"
| "isTypeContext ClassCtx = True"
| "isTypeContext ProtocolCtx = True"
| "isTypeContext ExtensionCtx = True"
| "isTypeContext c = False"

text \<open>
  The immutable part of a value declaration: its identity, its name, whether the name is
  an operator (\<open>isOperator\<close>), whether it is an instance member, and its context.
\<close>

record ValueDecl =
  Id :: nat
  Name :: string
  IsOperator :: bool
  IsInstanceMember :: bool
  Ctx :: DeclContext

text \<open>
  A declaration of the translation unit as the infix scan sees it: \<open>Some\<close> of a value
  declaration, or \<open>None\<close> where \<open>dyn_cast<ValueDecl>\<close> fails.  An imported module is
  its \<open>lookupValue\<close>, from a name to the declarations found; the module pointer of an
  import may be null.
\<close>

record TranslationUnit =
  IsLibrary :: bool
  Decls :: "ValueDecl option list"
  ImportedModules :: "(string \<Rightarrow> ValueDecl list) option list"

subsection \<open>Patterns, expressions, requirements\<close>

text \<open>A \<open>TypeLoc\<close> holds a type or null.\<close>

type_synonym TypeLoc = "ty option"

text \<open>
  Patterns.  A named pattern holds the variable declaration it binds.  The model keeps
  the type slot of the outermost pattern of a declaration only (in the state, under the
  declaration), the only one this file reads.
\<close>

datatype Pattern =
    TuplePattern "Pattern list"
  | ParenPattern Pattern
  | TypedPattern Pattern
  | NamedPattern ValueDecl
  | AnyPattern

fun isTypedPattern :: "Pattern \<Rightarrow> bool" where
  "isTypedPattern (TypedPattern p) = True"
| "isTypedPattern p = False"

fun boundVars :: "Pattern \<Rightarrow> ValueDecl list" where
  "boundVars (TuplePattern ps) = concat (map boundVars ps)"
| "boundVars (ParenPattern p) = boundVars p"
| "boundVars (TypedPattern p) = boundVars p"
| "boundVars (NamedPattern v) = [v]"
| "boundVars AnyPattern = []"

text \<open>An expression is known here by its identity and its type only.\<close>

datatype Expr = Expr (ExprId: nat) (ExprType: "ty option")

text \<open>A requirement: \<open>Conformance subject protocol\<close> or \<open>SameType first second\<close>.\<close>

datatype Requirement = Conformance ty ty | SameType ty ty

subsection \<open>The checker state\<close>

text \<open>
  Calls into the rest of the type checker and into the archetype builder, in the order
  they are made.
\<close>

datatype event =
    ValidateType TypeLoc bool
  | TypeCheckPattern Pattern bool
  | TypeCheckExpression Expr "ty option"
  | SemaFuncExpr nat bool
  | CoerceToType Pattern "ty option" bool
  | ConvertToMaterializable Expr
  | ConformsToProtocol "ty option" string
  | AddGenericParameter nat nat
  | AddRequirement Requirement
  | AssignArchetypes

text \<open>
  The checker mutates the AST in place.  The model keeps the tree immutable and holds
  every mutable slot in a table keyed by the identity of the declaration that owns it:
  \<^item> \<open>Types\<close>: the type slot of a value declaration (\<open>None\<close> while unset);
  \<^item> \<open>Attrs\<close>: its attributes;
  \<^item> \<open>TypeLocs\<close>: the one \<open>TypeLoc\<close> of a declaration (the underlying type of a type
    alias, the argument type of a oneof element, the element type of a subscript, the
    extended type of an extension);
  \<^item> \<open>Inherited\<close>: the inheritance clause;
  \<^item> \<open>Requirements\<close>: the requirements of the generic parameter list of a declaration;
  \<^item> \<open>PatternTypes\<close>: the type of the outermost pattern of a declaration (for a
    function, of its first parameter pattern);
  \<^item> \<open>Inits\<close>: the initializer of a pattern binding;
  \<^item> \<open>ImplicitThis\<close>: the type of the implicit \<open>this\<close> declaration of a constructor or
    destructor;
  \<^item> \<open>NextArchetype\<close>: the number the next allocated archetype gets.
  Diagnostics of this file and calls are kept in the order they are made.
\<close>

record tcstate =
  Diags :: "diag list"
  Trace :: "event list"
  Types :: "nat \<Rightarrow> ty option"
  Attrs :: "nat \<Rightarrow> DeclAttributes"
  TypeLocs :: "nat \<Rightarrow> TypeLoc"
  Inherited :: "nat \<Rightarrow> TypeLoc list"
  Requirements :: "nat \<Rightarrow> Requirement list"
  PatternTypes :: "nat \<Rightarrow> ty option"
  Inits :: "nat \<Rightarrow> Expr option"
  ImplicitThis :: "nat \<Rightarrow> ty option"
  NextArchetype :: nat

definition diagnose :: "diag \<Rightarrow> tcstate \<Rightarrow> tcstate" where
  "diagnose d s = s\<lparr>Diags := Diags s @ [d]\<rparr>"

definition record_call :: "event \<Rightarrow> tcstate \<Rightarrow> tcstate" where
  "record_call e s = s\<lparr>Trace := Trace s @ [e]\<rparr>"

definition setAttrs :: "nat \<Rightarrow> (DeclAttributes \<Rightarrow> DeclAttributes) \<Rightarrow> tcstate \<Rightarrow> tcstate" where
  "setAttrs d f s = s\<lparr>Attrs := (Attrs s)(d := f (Attrs s d))\<rparr>"

definition setType :: "nat \<Rightarrow> ty option \<Rightarrow> tcstate \<Rightarrow> tcstate" where
  "setType d t s = s\<lparr>Types := (Types s)(d := t)\<rparr>"

definition setTypeLoc :: "nat \<Rightarrow> TypeLoc \<Rightarrow> tcstate \<Rightarrow> tcstate" where
  "setTypeLoc d t s = s\<lparr>TypeLocs := (TypeLocs s)(d := t)\<rparr>"

text \<open>A loop over a list that stops at the first abort.\<close>

fun forEach :: "('a \<Rightarrow> 's \<Rightarrow> abort + 's) \<Rightarrow> 'a list \<Rightarrow> 's \<Rightarrow> abort + 's" where
  "forEach f [] s = Inr s"
| "forEach f (x # xs) s = (case f x s of Inl e \<Rightarrow> Inl e | Inr s' \<Rightarrow> forEach f xs s')"

subsection \<open>validateAttributes\<close>

text \<open>
  \<open>NumArguments\<close>: the number of lexical arguments, \<open>-1\<close> unless the type is a function
  type whose input is a tuple.
\<close>

definition numArguments :: "ty \<Rightarrow> int" where
  "numArguments Ty =
     (case getInput Ty of
        None \<Rightarrow> - 1
      | Some i \<Rightarrow> (case getFields i of None \<Rightarrow> - 1 | Some fs \<Rightarrow> int (length fs)))"

text \<open>The rule for \<open>Assignment\<close>; it never returns early.\<close>

definition checkAssignment :: "bool \<Rightarrow> ValueDecl \<Rightarrow> ty \<Rightarrow> tcstate \<Rightarrow> abort + tcstate" where
  "checkAssignment isFunc v Ty s =
     (if \<not> Assignment (Attrs s (Id v)) then Inr s
      else if \<not> isFunc \<or> \<not> IsOperator v then
        Inr (setAttrs (Id v) (\<lambda>a. a\<lparr>Assignment := False\<rparr>)
               (diagnose (invalid_decl_attribute ''assignment'') s))
      else if numArguments Ty < 1 then
        Inr (setAttrs (Id v) (\<lambda>a. a\<lparr>Assignment := False\<rparr>)
               (diagnose assignment_without_byref s))
      else
        (case (getInput Ty, getResult Ty) of
           (Some ParamType, Some Res) \<Rightarrow>
             (case (case getFields ParamType of
                      None \<Rightarrow> Some ParamType
                    | Some [] \<Rightarrow> None
                    | Some (f # fs) \<Rightarrow> Some (fst f)) of
                None \<Rightarrow> Inl BadCast
              | Some P \<Rightarrow>
                  if \<not> isLValueType P then
                    Inr (setAttrs (Id v) (\<lambda>a. a\<lparr>Assignment := False\<rparr>)
                           (diagnose assignment_without_byref s))
                  else if Res \<noteq> TupleType [] then Inr (diagnose (assignment_nonvoid Res) s)
                  else Inr s)
         | _ \<Rightarrow> Inl BadCast))"

text \<open>
  The rule for \<open>Conversion\<close>.  On a function that is an instance member and whose type
  is not the error type, the type is cast to a function type and its result again; a
  type of another shape aborts.
\<close>

definition checkConversion :: "bool \<Rightarrow> ValueDecl \<Rightarrow> ty \<Rightarrow> tcstate \<Rightarrow> abort + tcstate" where
  "checkConversion isFunc v Ty s =
     (if \<not> Conversion (Attrs s (Id v)) then Inr s
      else if \<not> isFunc \<or> \<not> IsInstanceMember v then
        Inr (setAttrs (Id v) (\<lambda>a. a\<lparr>Conversion := False\<rparr>)
               (diagnose (conversion_not_instance_method (Name v)) s))
      else if Ty \<noteq> ErrorType then
        (case getResult Ty of
           None \<Rightarrow> Inl BadCast
         | Some BoundMethodTy \<Rightarrow>
             (case getInput BoundMethodTy of
                None \<Rightarrow> Inl BadCast
              | Some InputTy \<Rightarrow>
                  let AcceptsEmptyParamList =
                        (case getFields InputTy of
                           None \<Rightarrow> False
                         | Some fs \<Rightarrow> list_all (\<lambda>f. snd (snd f)) fs)
                  in if \<not> AcceptsEmptyParamList then
                       Inr (setAttrs (Id v) (\<lambda>a. a\<lparr>Conversion := False\<rparr>)
                              (diagnose (conversion_params (Name v)) s))
                     else Inr s))
      else Inr s)"

text \<open>
  The scan of the translation unit's declarations: the first value declaration of the
  same name that is infix gives its \<open>Infix\<close>, and the loop stops there.
\<close>

fun lookInTranslationUnit :: "ValueDecl \<Rightarrow> ValueDecl option list \<Rightarrow> tcstate \<Rightarrow> tcstate" where
  "lookInTranslationUnit v [] s = s"
| "lookInTranslationUnit v (None # ds) s = lookInTranslationUnit v ds s"
| "lookInTranslationUnit v (Some Existing # ds) s =
     (if Name Existing = Name v \<and> isInfix (Attrs s (Id Existing))
      then setAttrs (Id v) (\<lambda>a. a\<lparr>Infix := Infix (Attrs s (Id Existing))\<rparr>) s
      else lookInTranslationUnit v ds s)"

text \<open>
  The scan of what one imported module found.  Both \<open>break\<close> statements are inside this
  loop: the first after a match, the second, tested after each declaration that did not
  match, when the declaration being validated is infix already.
\<close>

fun lookInFound :: "ValueDecl \<Rightarrow> ValueDecl list \<Rightarrow> tcstate \<Rightarrow> tcstate" where
  "lookInFound v [] s = s"
| "lookInFound v (Existing # es) s =
     (if Name Existing = Name v \<and> isInfix (Attrs s (Id Existing))
      then setAttrs (Id v) (\<lambda>a. a\<lparr>Infix := Infix (Attrs s (Id Existing))\<rparr>) s
      else if isInfix (Attrs s (Id v)) then s
      else lookInFound v es s)"

text \<open>The loop over the imported modules; nothing leaves it before the last module.\<close>

fun lookInImportedModules ::
  "ValueDecl \<Rightarrow> (string \<Rightarrow> ValueDecl list) option list \<Rightarrow> tcstate \<Rightarrow> tcstate" where
  "lookInImportedModules v [] s = s"
| "lookInImportedModules v (None # ms) s = lookInImportedModules v ms s"
| "lookInImportedModules v (Some Mod # ms) s =
     lookInImportedModules v ms (lookInFound v (Mod (Name v)) s)"

definition inheritInfix :: "TranslationUnit \<Rightarrow> ValueDecl \<Rightarrow> ty \<Rightarrow> tcstate \<Rightarrow> tcstate" where
  "inheritInfix TU v Ty s =
     (if IsOperator v \<and> \<not> isInfix (Attrs s (Id v)) \<and> numArguments Ty \<noteq> 1 then
        let s1 = (if Ctx v = TranslationUnitCtx then
                    let s2 = lookInTranslationUnit v (Decls TU) s
                    in if \<not> isInfix (Attrs s2 (Id v))
                       then lookInImportedModules v (ImportedModules TU) s2
                       else s2
                  else s)
        in if \<not> isInfix (Attrs s1 (Id v)) then diagnose binops_infix_left s1 else s1
      else s)"

definition checkByref :: "ValueDecl \<Rightarrow> tcstate \<Rightarrow> tcstate" where
  "checkByref v s =
     (if Byref (Attrs s (Id v))
      then setAttrs (Id v) (\<lambda>a. a\<lparr>Byref := False\<rparr>) (diagnose (invalid_decl_attribute ''byref'') s)
      else s)"

definition checkAutoClosure :: "ValueDecl \<Rightarrow> tcstate \<Rightarrow> tcstate" where
  "checkAutoClosure v s =
     (if AutoClosure (Attrs s (Id v))
      then setAttrs (Id v) (\<lambda>a. a\<lparr>AutoClosure := False\<rparr>)
             (diagnose (invalid_decl_attribute ''auto_closure'') s)
      else s)"

text \<open>The rules from \<open>Assignment\<close> to the end of the function: none of them returns early.\<close>

definition validateRest :: "TranslationUnit \<Rightarrow> bool \<Rightarrow> ValueDecl \<Rightarrow> ty \<Rightarrow> tcstate \<Rightarrow> abort + tcstate" where
  "validateRest TU isFunc v Ty s =
     (case checkAssignment isFunc v Ty s of
        Inl e \<Rightarrow> Inl e
      | Inr s1 \<Rightarrow>
          (case checkConversion isFunc v Ty s1 of
             Inl e \<Rightarrow> Inl e
           | Inr s2 \<Rightarrow> Inr (checkAutoClosure v (checkByref v (inheritInfix TU v Ty s2)))))"

text \<open>
  \<open>validateAttributes(VD)\<close>; \<open>TU\<close> is the translation unit the infix scan looks into
  when the context of \<open>VD\<close> is a translation unit, and \<open>isFunc\<close> is \<open>isa<FuncDecl>(VD)\<close>.
  The type is read once at entry; a null type aborts at the first \<open>dyn_cast\<close>.  Each
  \<open>return\<close> of the source ends the chain of conditionals.
\<close>

definition validateAttributes :: "TranslationUnit \<Rightarrow> bool \<Rightarrow> ValueDecl \<Rightarrow> tcstate \<Rightarrow> abort + tcstate" where
  "validateAttributes TU isFunc v s =
     (case Types s (Id v) of
        None \<Rightarrow> Inl NullType
      | Some Ty \<Rightarrow>
          let NumArguments = numArguments Ty in
          if IsOperator v \<and> \<not> isFunc then Inr (diagnose operator_not_func s)
          else if IsOperator v \<and> (NumArguments = 0 \<or> NumArguments > 2) then
            Inr (setAttrs (Id v) (\<lambda>a. a\<lparr>Infix := None\<rparr>)
                   (diagnose invalid_arg_count_for_operator s))
          else if IsOperator v \<and> NumArguments = 1 \<and> Name v = ''&'' then
            Inr (diagnose custom_operator_addressof s)
          else if isInfix (Attrs s (Id v)) \<and> \<not> IsOperator v then
            Inr (setAttrs (Id v) (\<lambda>a. a\<lparr>Infix := None\<rparr>) (diagnose infix_not_an_operator s))
          else if isInfix (Attrs s (Id v)) \<and> NumArguments \<noteq> 2 then
            Inr (setAttrs (Id v) (\<lambda>a. a\<lparr>Infix := None\<rparr>) (diagnose invalid_infix_left_input s))
          else if Postfix (Attrs s (Id v)) \<and> \<not> IsOperator v then
            Inr (setAttrs (Id v) (\<lambda>a. a\<lparr>Postfix := False\<rparr>) (diagnose postfix_not_an_operator s))
          else if Postfix (Attrs s (Id v)) \<and> NumArguments \<noteq> 1 then
            Inr (setAttrs (Id v) (\<lambda>a. a\<lparr>Postfix := False\<rparr>) (diagnose invalid_postfix_input s))
          else validateRest TU isFunc v Ty s)"

subsection \<open>The rest of the type checker\<close>

text \<open>
  The functions of \<open>TypeChecker\<close> this file calls are defined elsewhere; they are
  parameters of the model.  Each may read the whole state.  What it may write is what
  the call hands to it:
  \<^item> \<open>validateType(Loc, isFirstPass)\<close> gives the failure flag and the new content of \<open>Loc\<close>;
  \<^item> \<open>typeCheckPattern(P, isFirstPass)\<close> and \<open>coerceToType(P, Ty, isFirstPass)\<close> give
    the failure flag, the type of \<open>P\<close> and the types of the variables \<open>P\<close> binds;
  \<^item> \<open>typeCheckExpression(E, DestTy)\<close> gives the failure flag and the new \<open>E\<close>;
  \<^item> \<open>semaFuncExpr(body, isFirstPass)\<close> gives the type of the body (of the function
    with the given identity);
  \<^item> \<open>convertToMaterializable(E)\<close> gives an expression or null.
  \<open>TU\<close> is the translation unit being checked (\<open>TC.TU\<close>).  Diagnostics these functions
  emit themselves are not part of \<open>Diags\<close>.  Types are values here: where the validator
  resolves a named type in place, the model keeps the type and takes the verdict.
\<close>

record TypeChecker =
  validateType :: "tcstate \<Rightarrow> TypeLoc \<Rightarrow> bool \<Rightarrow> bool \<times> TypeLoc"
  typeCheckPattern :: "tcstate \<Rightarrow> Pattern \<Rightarrow> bool \<Rightarrow> bool \<times> ty option \<times> (nat \<Rightarrow> ty option)"
  typeCheckExpression :: "tcstate \<Rightarrow> Expr \<Rightarrow> ty option \<Rightarrow> bool \<times> Expr"
  semaFuncExpr :: "tcstate \<Rightarrow> nat \<Rightarrow> bool \<Rightarrow> ty option"
  coerceToType :: "tcstate \<Rightarrow> Pattern \<Rightarrow> ty option \<Rightarrow> bool \<Rightarrow> bool \<times> ty option \<times> (nat \<Rightarrow> ty option)"
  convertToMaterializable :: "tcstate \<Rightarrow> Expr \<Rightarrow> Expr option"
  TU :: TranslationUnit

text \<open>
  Modelled from the spec: \<open>isMaterializable\<close> is defined in the AST library, which is not
  part of the sources at hand.  The spec: a materialisable type is non-reference and
  not a tuple containing a reference.
\<close>

fun isMaterializable :: "ty \<Rightarrow> bool" where
  "isMaterializable (LValueType t) = False"
| "isMaterializable (TupleType fs) = list_all (\<lambda>f. isMaterializable (fst f)) fs"
| "isMaterializable t = True"

subsection \<open>checkInherited and checkExplicitConformance\<close>

definition setInherited :: "nat \<Rightarrow> nat \<Rightarrow> TypeLoc \<Rightarrow> tcstate \<Rightarrow> tcstate" where
  "setInherited D i t s = s\<lparr>Inherited := (Inherited s)(D := (Inherited s D)[i := t])\<rparr>"

text \<open>
  One round of the loop of \<open>checkInherited\<close>, on \<open>Inherited[i]\<close> of declaration \<open>D\<close>.
  The validator writes into the slot; a failure then marks the slot invalid.  After a
  success the type of the slot is dereferenced.
\<close>

definition checkInheritedAt :: "TypeChecker \<Rightarrow> bool \<Rightarrow> nat \<Rightarrow> nat \<Rightarrow> tcstate \<Rightarrow> abort + tcstate" where
  "checkInheritedAt TC IsFirstPass D i s =
     (let loc = Inherited s D ! i;
          r = validateType TC s loc IsFirstPass;
          s1 = setInherited D i (snd r) (record_call (ValidateType loc IsFirstPass) s)
      in if fst r then Inr (setInherited D i (Some ErrorType) s1)
         else (case snd r of
                 None \<Rightarrow> Inl NullType
               | Some T \<Rightarrow>
                   if \<not> isExistentialType T \<and> T \<noteq> ErrorType
                   then Inr (diagnose (nonprotocol_inherit T) s1)
                   else Inr s1))"

definition checkInherited :: "TypeChecker \<Rightarrow> bool \<Rightarrow> nat \<Rightarrow> tcstate \<Rightarrow> abort + tcstate" where
  "checkInherited TC IsFirstPass D s =
     forEach (checkInheritedAt TC IsFirstPass D) [0..<length (Inherited s D)] s"

text \<open>
  \<open>checkExplicitConformance(D, T, Inherited)\<close>: one call of the conformance oracle for
  each protocol of each existential type of the inheritance clause.
\<close>

definition checkConformanceOf :: "ty option \<Rightarrow> TypeLoc \<Rightarrow> tcstate \<Rightarrow> abort + tcstate" where
  "checkConformanceOf T InheritedTy s =
     (case InheritedTy of
        None \<Rightarrow> Inl NullType
      | Some I \<Rightarrow>
          (case existentialProtocols I of
             None \<Rightarrow> Inr s
           | Some InheritedProtos \<Rightarrow>
               Inr (fold (\<lambda>Proto. record_call (ConformsToProtocol T Proto)) InheritedProtos s)))"

definition checkExplicitConformance :: "nat \<Rightarrow> ty option \<Rightarrow> tcstate \<Rightarrow> abort + tcstate" where
  "checkExplicitConformance D T s = forEach (checkConformanceOf T) (Inherited s D) s"

subsection \<open>The archetype builder\<close>

text \<open>A generic parameter list: the declaration that owns it and its type parameters.\<close>

record GenericParamList =
  Owner :: nat
  Params :: "ValueDecl list"

text \<open>
  Modelled from the spec: \<open>ArchetypeBuilder\<close> is declared in ArchetypeBuilder.h and
  defined outside the sources at hand.  The spec: parameters are registered under their
  index; requirements are added; archetype assignment computes, for each parameter, the
  set of protocols it must conform to (the union of the parameter's declared inherited
  protocols and any Conformance requirement targeting it) and synthesises a fresh
  archetype for each.  A requirement targets a parameter when its subject is the
  parameter's name.
\<close>

record ArchetypeBuilder =
  BuilderParams :: "(ValueDecl \<times> nat) list"
  BuilderReqs :: "Requirement list"

definition addGenericParameter :: "ValueDecl \<Rightarrow> nat \<Rightarrow> ArchetypeBuilder \<Rightarrow> ArchetypeBuilder" where
  "addGenericParameter P Index B = B\<lparr>BuilderParams := BuilderParams B @ [(P, Index)]\<rparr>"

definition addRequirement :: "Requirement \<Rightarrow> ArchetypeBuilder \<Rightarrow> ArchetypeBuilder" where
  "addRequirement Req B = B\<lparr>BuilderReqs := BuilderReqs B @ [Req]\<rparr>"

fun protocolsOf :: "TypeLoc \<Rightarrow> string list" where
  "protocolsOf None = []"
| "protocolsOf (Some T) = (case existentialProtocols T of None \<Rightarrow> [] | Some ps \<Rightarrow> ps)"

fun requiredProtocols :: "ValueDecl \<Rightarrow> Requirement \<Rightarrow> string list" where
  "requiredProtocols P (Conformance Subject Proto) =
     (if Subject = IdentifierType (Name P) then protocolsOf (Some Proto) else [])"
| "requiredProtocols P (SameType First Second) = []"

definition conformsTo :: "ArchetypeBuilder \<Rightarrow> tcstate \<Rightarrow> ValueDecl \<Rightarrow> string list" where
  "conformsTo B s P =
     remdups (concat (map protocolsOf (Inherited s (Id P)))
              @ concat (map (requiredProtocols P) (BuilderReqs B)))"

fun assignFrom :: "ArchetypeBuilder \<Rightarrow> tcstate \<Rightarrow> nat \<Rightarrow> (ValueDecl \<times> nat) list \<Rightarrow> (nat \<times> ty) list" where
  "assignFrom B s n [] = []"
| "assignFrom B s n ((P, Index) # ps) =
     (Id P, ArchetypeType n (Name P) (map ProtocolType (conformsTo B s P)) (Some Index))
       # assignFrom B s (Suc n) ps"

definition assignArchetypes :: "ArchetypeBuilder \<Rightarrow> tcstate \<Rightarrow> (nat \<times> ty) list" where
  "assignArchetypes B s = assignFrom B s (NextArchetype s) (BuilderParams B)"

subsection \<open>checkGenericParams\<close>

text \<open>
  The builder is a local object of \<open>checkGenericParams\<close>; the iterations below pass it along
  with the state.
\<close>

definition onState :: "('s \<Rightarrow> 's) \<Rightarrow> 'b \<times> 's \<Rightarrow> 'b \<times> 's" where
  "onState f bs = (fst bs, f (snd bs))"

text \<open>The first loop: check the constraints on each type parameter and register it.\<close>

definition intakeParam ::
  "TypeChecker \<Rightarrow> bool \<Rightarrow> ValueDecl \<times> nat \<Rightarrow> ArchetypeBuilder \<times> tcstate
     \<Rightarrow> abort + ArchetypeBuilder \<times> tcstate" where
  "intakeParam TC IsFirstPass pi bs =
     (case checkInherited TC IsFirstPass (Id (fst pi)) (snd bs) of
        Inl e \<Rightarrow> Inl e
      | Inr s1 \<Rightarrow>
          Inr (addGenericParameter (fst pi) (snd pi) (fst bs),
               record_call (AddGenericParameter (Id (fst pi)) (snd pi)) s1))"

definition setRequirement :: "nat \<Rightarrow> nat \<Rightarrow> Requirement \<Rightarrow> tcstate \<Rightarrow> tcstate" where
  "setRequirement G i r s = s\<lparr>Requirements := (Requirements s)(G := (Requirements s G)[i := r])\<rparr>"

text \<open>
  The first requirements loop, on requirement \<open>i\<close> of the list of declaration \<open>G\<close>.  The
  validator gets a temporary \<open>TypeLoc\<close>, so only its failure flag is used.
\<close>

definition firstScanAt ::
  "TypeChecker \<Rightarrow> bool \<Rightarrow> nat \<Rightarrow> nat \<Rightarrow> ArchetypeBuilder \<times> tcstate
     \<Rightarrow> abort + ArchetypeBuilder \<times> tcstate" where
  "firstScanAt TC IsFirstPass G i bs =
     (let s = snd bs; Req = Requirements s G ! i in
      case Req of
        Conformance Subject Proto \<Rightarrow>
          let failed = fst (validateType TC s (Some Proto) IsFirstPass);
              s1 = record_call (ValidateType (Some Proto) IsFirstPass) s
          in if failed then Inr (fst bs, setRequirement G i (Conformance Subject ErrorType) s1)
             else if \<not> isExistentialType Proto then
               Inr (fst bs, setRequirement G i (Conformance Subject ErrorType)
                              (diagnose (requires_conformance_nonprotocol Subject Proto) s1))
             else Inr (addRequirement Req (fst bs), record_call (AddRequirement Req) s1)
      | SameType First Second \<Rightarrow>
          Inr (addRequirement Req (fst bs), record_call (AddRequirement Req) s))"

text \<open>Wire up the archetypes: each goes into the underlying type of its parameter.\<close>

definition wireArchetypes :: "ArchetypeBuilder \<Rightarrow> tcstate \<Rightarrow> tcstate" where
  "wireArchetypes B s =
     (let Archetypes = assignArchetypes B s;
          s1 = (record_call AssignArchetypes s)\<lparr>NextArchetype := NextArchetype s + length Archetypes\<rparr>
      in fold (\<lambda>Arch. setTypeLoc (fst Arch) (Some (snd Arch))) Archetypes s1)"

text \<open>The second requirements loop.\<close>

definition secondScanAt ::
  "TypeChecker \<Rightarrow> bool \<Rightarrow> nat \<Rightarrow> nat \<Rightarrow> ArchetypeBuilder \<times> tcstate
     \<Rightarrow> abort + ArchetypeBuilder \<times> tcstate" where
  "secondScanAt TC IsFirstPass G i bs =
     (let s = snd bs; Req = Requirements s G ! i in
      case Req of
        Conformance Subject Proto \<Rightarrow>
          let failed = fst (validateType TC s (Some Subject) IsFirstPass);
              s1 = record_call (ValidateType (Some Subject) IsFirstPass) s
          in if failed then Inr (fst bs, setRequirement G i (Conformance ErrorType Proto) s1)
             else Inr (addRequirement Req (fst bs), record_call (AddRequirement Req) s1)
      | SameType First Second \<Rightarrow>
          let failed1 = fst (validateType TC s (Some First) IsFirstPass);
              s1 = record_call (ValidateType (Some First) IsFirstPass) s
          in if failed1 then Inr (fst bs, setRequirement G i (SameType ErrorType Second) s1)
             else
               let failed2 = fst (validateType TC s1 (Some Second) IsFirstPass);
                   s2 = record_call (ValidateType (Some Second) IsFirstPass) s1
               in if failed2 then Inr (fst bs, setRequirement G i (SameType First ErrorType) s2)
                  else Inr (addRequirement Req (fst bs), record_call (AddRequirement Req) s2))"

definition checkGenericParams ::
  "TypeChecker \<Rightarrow> bool \<Rightarrow> GenericParamList option \<Rightarrow> tcstate \<Rightarrow> abort + tcstate" where
  "checkGenericParams TC IsFirstPass GenericParams s =
     (case GenericParams of
        None \<Rightarrow> Inr s
      | Some GP \<Rightarrow>
          let G = Owner GP; Builder = \<lparr>BuilderParams = [], BuilderReqs = []\<rparr> in
          (case forEach (intakeParam TC IsFirstPass)
                  (zip (Params GP) [0..<length (Params GP)]) (Builder, s) of
             Inl e \<Rightarrow> Inl e
           | Inr bs1 \<Rightarrow>
               (case forEach (firstScanAt TC IsFirstPass G)
                       [0..<length (Requirements (snd bs1) G)] bs1 of
                  Inl e \<Rightarrow> Inl e
                | Inr bs2 \<Rightarrow>
                    let bs3 = (fst bs2, wireArchetypes (fst bs2) (snd bs2)) in
                    (case forEach (secondScanAt TC IsFirstPass G)
                            [0..<length (Requirements (snd bs3) G)] bs3 of
                       Inl e \<Rightarrow> Inl e
                     | Inr bs4 \<Rightarrow> Inr (snd bs4)))))"

subsection \<open>Declarations\<close>

text \<open>
  A nominal type declaration (oneof, struct, class): its identity, its context, its
  declared type, its declared type in context and its generic parameters.
\<close>

record NominalDecl =
  NId :: nat
  NCtx :: DeclContext
  DeclaredType :: ty
  DeclaredTypeInContext :: ty
  GenericParams :: "GenericParamList option"

text \<open>
  The declaration tree.
  \<^item> \<open>PatternBindingDecl id context pattern\<close>;
  \<^item> \<open>VarDecl v isProperty\<close>;
  \<^item> \<open>FuncDecl v thisType firstParamIsTyped genericParams\<close>, where \<open>thisType\<close> is what
    \<open>computeThisType\<close> gives (null outside a type) and \<open>firstParamIsTyped\<close> says whether
    the first parameter pattern of the body is a typed pattern;
  \<^item> \<open>ConstructorDecl v thisType arguments genericParams\<close>, where \<open>thisType\<close> is what
    \<open>computeThisType\<close> gives for the constructor (see below);
  \<^item> \<open>DestructorDecl v thisType\<close>, where \<open>thisType\<close> is what \<open>computeThisType\<close> gives for
    the destructor;
  \<^item> \<open>SubscriptDecl v indices\<close>;
  \<^item> \<open>TypeAliasDecl v declaredType\<close>;
  \<^item> \<open>ProtocolDecl id context members\<close>, \<open>ExtensionDecl id context members\<close>.
\<close>

text \<open>
  Modelled from the spec: \<open>ConstructorDecl::computeThisType\<close> is defined in the AST library,
  which is not part of the sources at hand.  The spec: the type of a constructor whose
  arguments pattern type-checks is \<open>ArgsType \<rightarrow> ThisType\<close>, and a constructor at the top
  level "still type-checks to a function type".  So the \<open>this\<close> type of a constructor is
  a type in every context, and the tree carries it as a \<open>ty\<close>; \<open>visit\<close> hands it to
  \<open>visitConstructorDecl\<close>, which, as the source, takes a \<open>Type\<close> that may be null.
\<close>

datatype Decl =
    ImportDecl DeclContext
  | PatternBindingDecl nat DeclContext Pattern
  | VarDecl ValueDecl bool
  | FuncDecl ValueDecl "ty option" bool "GenericParamList option"
  | ConstructorDecl ValueDecl ty Pattern "GenericParamList option"
  | DestructorDecl ValueDecl "ty option"
  | SubscriptDecl ValueDecl Pattern
  | TypeAliasDecl ValueDecl ty
  | OneOfDecl NominalDecl "Decl list"
  | OneOfElementDecl ValueDecl
  | StructDecl NominalDecl "Decl list"
  | ClassDecl NominalDecl "Decl list"
  | ProtocolDecl nat DeclContext "Decl list"
  | ExtensionDecl nat DeclContext "Decl list"
  | TopLevelCodeDecl DeclContext

fun getDeclContext :: "Decl \<Rightarrow> DeclContext" where
  "getDeclContext (ImportDecl c) = c"
| "getDeclContext (PatternBindingDecl i c p) = c"
| "getDeclContext (VarDecl v isProperty) = Ctx v"
| "getDeclContext (FuncDecl v t f g) = Ctx v"
| "getDeclContext (ConstructorDecl v t a g) = Ctx v"
| "getDeclContext (DestructorDecl v t) = Ctx v"
| "getDeclContext (SubscriptDecl v p) = Ctx v"
| "getDeclContext (TypeAliasDecl v t) = Ctx v"
| "getDeclContext (OneOfDecl n ms) = NCtx n"
| "getDeclContext (OneOfElementDecl v) = Ctx v"
| "getDeclContext (StructDecl n ms) = NCtx n"
| "getDeclContext (ClassDecl n ms) = NCtx n"
| "getDeclContext (ProtocolDecl i c ms) = c"
| "getDeclContext (ExtensionDecl i c ms) = c"
| "getDeclContext (TopLevelCodeDecl c) = c"

subsection \<open>Visit methods without members\<close>

definition andThen :: "abort + 'a \<Rightarrow> ('a \<Rightarrow> abort + 'b) \<Rightarrow> abort + 'b" where
  "andThen r f = (case r of Inl e \<Rightarrow> Inl e | Inr x \<Rightarrow> f x)"

text \<open>
  Building a function type dereferences both types: over a null type the model aborts.
\<close>

definition getFunctionType :: "ty option \<Rightarrow> ty option \<Rightarrow> abort + ty" where
  "getFunctionType Input Result =
     (case (Input, Result) of (Some i, Some r) \<Rightarrow> Inr (FunctionType i r) | _ \<Rightarrow> Inl NullType)"

text \<open>
  The call of the validator on the \<open>TypeLoc\<close> of declaration \<open>D\<close>: the slot is written,
  the failure flag returned.
\<close>

definition validateTypeLoc :: "TypeChecker \<Rightarrow> bool \<Rightarrow> nat \<Rightarrow> tcstate \<Rightarrow> bool \<times> tcstate" where
  "validateTypeLoc TC IsFirstPass D s =
     (let r = validateType TC s (TypeLocs s D) IsFirstPass
      in (fst r, setTypeLoc D (snd r) (record_call (ValidateType (TypeLocs s D) IsFirstPass) s)))"

text \<open>
  What a pattern check writes: the type of the pattern of declaration \<open>D\<close> and the types
  of the variables the pattern binds.
\<close>

definition writePattern :: "nat \<Rightarrow> Pattern \<Rightarrow> ty option \<times> (nat \<Rightarrow> ty option) \<Rightarrow> tcstate \<Rightarrow> tcstate" where
  "writePattern D P r s =
     (fold (\<lambda>v. setType (Id v) (snd r (Id v))) (boundVars P) s)
       \<lparr>PatternTypes := (PatternTypes s)(D := fst r)\<rparr>"

definition typeCheckPatternOf ::
  "TypeChecker \<Rightarrow> bool \<Rightarrow> nat \<Rightarrow> Pattern \<Rightarrow> tcstate \<Rightarrow> bool \<times> tcstate" where
  "typeCheckPatternOf TC isFirstPass D P s =
     (let r = typeCheckPattern TC s P isFirstPass
      in (fst r, writePattern D P (snd r) (record_call (TypeCheckPattern P isFirstPass) s)))"

definition coerceToTypeOf ::
  "TypeChecker \<Rightarrow> nat \<Rightarrow> Pattern \<Rightarrow> ty option \<Rightarrow> tcstate \<Rightarrow> bool \<times> tcstate" where
  "coerceToTypeOf TC D P Ty s =
     (let r = coerceToType TC s P Ty False
      in (fst r, writePattern D P (snd r) (record_call (CoerceToType P Ty False) s)))"

text \<open>\<open>visitBoundVars\<close>: the variables of the pattern, in the order of the recursion.\<close>

definition visitBoundVar :: "TypeChecker \<Rightarrow> ValueDecl \<Rightarrow> tcstate \<Rightarrow> abort + tcstate" where
  "visitBoundVar TC VD s =
     (case Types s (Id VD) of
        None \<Rightarrow> Inl NullType
      | Some T \<Rightarrow>
          validateAttributes (TU TC) False VD
            (if \<not> isMaterializable T
             then setType (Id VD) (Some ErrorType) (diagnose (var_type_not_materializable T) s)
             else s))"

fun visitBoundVars :: "TypeChecker \<Rightarrow> Pattern \<Rightarrow> tcstate \<Rightarrow> abort + tcstate"
  and visitBoundVarsFields :: "TypeChecker \<Rightarrow> Pattern list \<Rightarrow> tcstate \<Rightarrow> abort + tcstate" where
  "visitBoundVars TC (TuplePattern fs) s = visitBoundVarsFields TC fs s"
| "visitBoundVars TC (ParenPattern p) s = visitBoundVars TC p s"
| "visitBoundVars TC (TypedPattern p) s = visitBoundVars TC p s"
| "visitBoundVars TC (NamedPattern VD) s = visitBoundVar TC VD s"
| "visitBoundVars TC AnyPattern s = Inr s"
| "visitBoundVarsFields TC [] s = Inr s"
| "visitBoundVarsFields TC (f # fs) s =
     (case visitBoundVars TC f s of
        Inl e \<Rightarrow> Inl e
      | Inr s' \<Rightarrow> visitBoundVarsFields TC fs s')"

text \<open>
  \<open>visitPatternBindingDecl\<close>.  \<open>recheckInit\<close> is the branch of the second pass without
  delay.  \<open>checkInit\<close> is the branch with an initializer outside the first pass:
  the check of a typed pattern, then the check of the initializer against the destination
  type (\<open>checkInitAgainst\<close>), then, without a destination type, the conversion of the
  initializer and the coercion of the pattern (\<open>inferFromInit\<close>).  The flag returned with
  the state says whether \<open>visitBoundVars\<close> is reached; \<open>False\<close> stands for \<open>return\<close>.
\<close>

definition recheckInit :: "TypeChecker \<Rightarrow> nat \<Rightarrow> tcstate \<Rightarrow> tcstate" where
  "recheckInit TC PBD s =
     (case (Inits s PBD, PatternTypes s PBD) of
        (Some Init, Some DestTy) \<Rightarrow>
          let r = typeCheckExpression TC s Init (Some DestTy);
              s1 = record_call (TypeCheckExpression Init (Some DestTy)) s
          in if fst r then diagnose (while_converting_var_init DestTy) s1
             else s1\<lparr>Inits := (Inits s1)(PBD := Some (snd r))\<rparr>
      | _ \<Rightarrow> s)"

definition inferFromInit :: "TypeChecker \<Rightarrow> nat \<Rightarrow> Pattern \<Rightarrow> Expr \<Rightarrow> tcstate \<Rightarrow> tcstate \<times> bool" where
  "inferFromInit TC PBD P Init1 s2 =
     (let s3 = record_call (ConvertToMaterializable Init1) s2;
          Init = (case convertToMaterializable TC s2 Init1 of
                    None \<Rightarrow> Init1
                  | Some newInit \<Rightarrow> newInit);
          s4 = s3\<lparr>Inits := (Inits s3)(PBD := Some Init)\<rparr>;
          c = coerceToTypeOf TC PBD P (ExprType Init) s4
      in (snd c, \<not> fst c))"

definition checkInitAgainst ::
  "TypeChecker \<Rightarrow> nat \<Rightarrow> Pattern \<Rightarrow> Expr \<Rightarrow> ty option \<Rightarrow> tcstate \<Rightarrow> tcstate \<times> bool" where
  "checkInitAgainst TC PBD P Init0 DestTy s1 =
     (let r = typeCheckExpression TC s1 Init0 DestTy;
          s2 = record_call (TypeCheckExpression Init0 DestTy) s1
      in if fst r then
           (case DestTy of
              Some T \<Rightarrow> (diagnose (while_converting_var_init T) s2, False)
            | None \<Rightarrow> (s2, False))
         else
           (case DestTy of
              Some T \<Rightarrow> (s2\<lparr>Inits := (Inits s2)(PBD := Some (snd r))\<rparr>, True)
            | None \<Rightarrow> inferFromInit TC PBD P (snd r) s2))"

definition checkInit :: "TypeChecker \<Rightarrow> nat \<Rightarrow> Pattern \<Rightarrow> Expr \<Rightarrow> tcstate \<Rightarrow> tcstate \<times> bool" where
  "checkInit TC PBD P Init0 s =
     (if isTypedPattern P then
        let pc = typeCheckPatternOf TC False PBD P s
        in if fst pc then (snd pc, False)
           else checkInitAgainst TC PBD P Init0 (PatternTypes (snd pc) PBD) (snd pc)
      else checkInitAgainst TC PBD P Init0 None s)"

definition visitPatternBindingDecl ::
  "TypeChecker \<Rightarrow> bool \<Rightarrow> bool \<Rightarrow> nat \<Rightarrow> DeclContext \<Rightarrow> Pattern \<Rightarrow> tcstate \<Rightarrow> abort + tcstate" where
  "visitPatternBindingDecl TC IsFirstPass IsSecondPass PBD C P s =
     (let DelayCheckingPattern = (\<not> IsLibrary (TU TC) \<and> isModuleContext C) in
      if IsSecondPass \<and> \<not> DelayCheckingPattern then Inr (recheckInit TC PBD s)
      else
        let r = (case Inits s PBD of
                   Some Init \<Rightarrow>
                     if \<not> IsFirstPass then checkInit TC PBD P Init s
                     else if \<not> DelayCheckingPattern then
                       (let pc = typeCheckPatternOf TC IsFirstPass PBD P s in (snd pc, \<not> fst pc))
                     else (s, True)
                 | None \<Rightarrow>
                     if \<not> IsFirstPass \<or> \<not> DelayCheckingPattern then
                       (let pc = typeCheckPatternOf TC IsFirstPass PBD P s in (snd pc, \<not> fst pc))
                     else (s, True))
        in if snd r then visitBoundVars TC P (fst r) else Inr (fst r))"

definition visitSubscriptDecl ::
  "TypeChecker \<Rightarrow> bool \<Rightarrow> bool \<Rightarrow> ValueDecl \<Rightarrow> Pattern \<Rightarrow> tcstate \<Rightarrow> abort + tcstate" where
  "visitSubscriptDecl TC IsFirstPass IsSecondPass SD Indices s =
     (if IsSecondPass then Inr s
      else
        let s1 = (if \<not> isTypeContext (Ctx SD) then diagnose subscript_not_member s else s);
            s2 = snd (validateTypeLoc TC IsFirstPass (Id SD) s1);
            pc = typeCheckPatternOf TC IsFirstPass (Id SD) Indices s2;
            s3 = snd pc
        in if \<not> fst pc then
             andThen (getFunctionType (PatternTypes s3 (Id SD)) (TypeLocs s3 (Id SD)))
               (\<lambda>FnTy. Inr (setType (Id SD) (Some FnTy) s3))
           else Inr s3)"

definition visitTypeAliasDecl ::
  "TypeChecker \<Rightarrow> bool \<Rightarrow> bool \<Rightarrow> ValueDecl \<Rightarrow> ty \<Rightarrow> tcstate \<Rightarrow> abort + tcstate" where
  "visitTypeAliasDecl TC IsFirstPass IsSecondPass TAD DeclaredTy s =
     andThen
       (if \<not> IsSecondPass then
          let s1 = snd (validateTypeLoc TC IsFirstPass (Id TAD) s)
          in if Ctx TAD \<noteq> ProtocolCtx then checkInherited TC IsFirstPass (Id TAD) s1 else Inr s1
        else Inr s)
       (\<lambda>s2. if \<not> IsFirstPass then checkExplicitConformance (Id TAD) (Some DeclaredTy) s2
              else Inr s2)"

text \<open>
  \<open>visitFuncDecl\<close>.  For a member the first parameter pattern is cast to a typed pattern;
  if it has a type already, the assertion compares it with the type of \<open>this\<close>.
\<close>

definition setUpThis :: "ValueDecl \<Rightarrow> ty option \<Rightarrow> bool \<Rightarrow> tcstate \<Rightarrow> abort + tcstate" where
  "setUpThis FD ThisType FirstParamIsTyped s =
     (case ThisType of
        None \<Rightarrow> Inr s
      | Some thisType \<Rightarrow>
          if \<not> FirstParamIsTyped then Inl BadCast
          else (case PatternTypes s (Id FD) of
                  Some T \<Rightarrow> if T = thisType then Inr s else Inl AssertionFailed
                | None \<Rightarrow> Inr (s\<lparr>PatternTypes := (PatternTypes s)(Id FD := Some thisType)\<rparr>)))"

definition visitFuncDecl ::
  "TypeChecker \<Rightarrow> bool \<Rightarrow> bool \<Rightarrow> ValueDecl \<Rightarrow> ty option \<Rightarrow> bool \<Rightarrow> GenericParamList option
     \<Rightarrow> tcstate \<Rightarrow> abort + tcstate" where
  "visitFuncDecl TC IsFirstPass IsSecondPass FD ThisType FirstParamIsTyped GP s =
     (if IsSecondPass then Inr s
      else
        andThen (setUpThis FD ThisType FirstParamIsTyped s) (\<lambda>s1.
        andThen (checkGenericParams TC IsFirstPass GP s1) (\<lambda>s2.
          let bodyTy = semaFuncExpr TC s2 (Id FD) IsFirstPass;
              s3 = setType (Id FD) bodyTy (record_call (SemaFuncExpr (Id FD) IsFirstPass) s2)
          in validateAttributes (TU TC) True FD s3)))"

definition visitOneOfElementDecl ::
  "TypeChecker \<Rightarrow> bool \<Rightarrow> bool \<Rightarrow> ValueDecl \<Rightarrow> tcstate \<Rightarrow> abort + tcstate" where
  "visitOneOfElementDecl TC IsFirstPass IsSecondPass ED s =
     (if IsSecondPass then Inr s
      else
        (case Ctx ED of
           OneOfCtx ElemTy \<Rightarrow>
             if TypeLocs s (Id ED) = None then Inr (setType (Id ED) (Some ElemTy) s)
             else
               let vr = validateTypeLoc TC IsFirstPass (Id ED) s; s1 = snd vr
               in if fst vr then Inr s1
                  else
                    (case TypeLocs s1 (Id ED) of
                       None \<Rightarrow> Inl NullType
                     | Some ArgTy \<Rightarrow>
                         let s2 = setType (Id ED) (Some (FunctionType ArgTy ElemTy)) s1
                         in if \<not> isMaterializable ArgTy
                            then Inr (diagnose oneof_element_not_materializable s2)
                            else Inr s2)
         | _ \<Rightarrow> Inr s))"

definition visitConstructorDecl ::
  "TypeChecker \<Rightarrow> bool \<Rightarrow> bool \<Rightarrow> ValueDecl \<Rightarrow> ty option \<Rightarrow> Pattern \<Rightarrow> GenericParamList option
     \<Rightarrow> tcstate \<Rightarrow> abort + tcstate" where
  "visitConstructorDecl TC IsFirstPass IsSecondPass CD ThisTy Arguments GP s =
     (if IsSecondPass then Inr s
      else
        let s1 = (if \<not> isTypeContext (Ctx CD) then diagnose constructor_not_member s else s) in
        andThen (checkGenericParams TC IsFirstPass GP s1) (\<lambda>s2.
          let s3 = s2\<lparr>ImplicitThis := (ImplicitThis s2)(Id CD := ThisTy)\<rparr>;
              pc = typeCheckPatternOf TC IsFirstPass (Id CD) Arguments s3;
              s4 = snd pc
          in andThen
               (if fst pc then Inr (setType (Id CD) (Some ErrorType) s4)
                else
                  (case (PatternTypes s4 (Id CD), ThisTy) of
                     (Some ArgsTy, Some This) \<Rightarrow>
                       Inr (setType (Id CD)
                              (Some (case GP of
                                       Some G \<Rightarrow> PolymorphicFunctionType ArgsTy This (Owner G)
                                     | None \<Rightarrow> FunctionType ArgsTy This)) s4)
                   | _ \<Rightarrow> Inl NullType))
               (validateAttributes (TU TC) False CD)))"

definition visitDestructorDecl ::
  "TypeChecker \<Rightarrow> bool \<Rightarrow> bool \<Rightarrow> ValueDecl \<Rightarrow> ty option \<Rightarrow> tcstate \<Rightarrow> abort + tcstate" where
  "visitDestructorDecl TC IsFirstPass IsSecondPass DD ThisTy s =
     (if IsSecondPass then Inr s
      else
        let s1 = (if Ctx DD \<noteq> ClassCtx then diagnose destructor_not_member s else s) in
        andThen (getFunctionType ThisTy (Some (TupleType []))) (\<lambda>FnTy.
          validateAttributes (TU TC) False DD
            ((setType (Id DD) (Some FnTy) s1)\<lparr>ImplicitThis := (ImplicitThis s1)(Id DD := ThisTy)\<rparr>)))"

subsection \<open>Visit methods of declarations with members\<close>

text \<open>What oneof, struct and class do before their members, outside the second pass.\<close>

definition checkNominal :: "TypeChecker \<Rightarrow> bool \<Rightarrow> NominalDecl \<Rightarrow> tcstate \<Rightarrow> abort + tcstate" where
  "checkNominal TC IsFirstPass N s =
     andThen (checkInherited TC IsFirstPass (NId N) s)
       (checkGenericParams TC IsFirstPass (GenericParams N))"

text \<open>
  The implied constructor of a struct: the variables among the members that are not
  properties, with type and name, make a tuple type; the last member is cast to a oneof
  element and gets the function type from the tuple to the struct.
\<close>

fun tupleElts :: "Decl list \<Rightarrow> tcstate \<Rightarrow> abort + (ty \<times> string \<times> bool) list" where
  "tupleElts [] s = Inr []"
| "tupleElts (VarDecl VarD isProperty # ms) s =
     (if \<not> isProperty then
        (case Types s (Id VarD) of
           None \<Rightarrow> Inl NullType
         | Some T \<Rightarrow> andThen (tupleElts ms s) (\<lambda>elts. Inr ((T, Name VarD, False) # elts)))
      else tupleElts ms s)"
| "tupleElts (m # ms) s = tupleElts ms s"

definition impliedConstructor :: "NominalDecl \<Rightarrow> Decl list \<Rightarrow> tcstate \<Rightarrow> abort + tcstate" where
  "impliedConstructor SD Members s =
     andThen (tupleElts Members s) (\<lambda>TupleElts.
       if Members = [] then Inl AssertionFailed
       else (case last Members of
               OneOfElementDecl ElementCtor \<Rightarrow>
                 Inr (setTypeLoc (Id ElementCtor) (Some (TupleType TupleElts))
                        (setType (Id ElementCtor)
                           (Some (FunctionType (TupleType TupleElts) (DeclaredTypeInContext SD))) s))
             | _ \<Rightarrow> Inl BadCast))"

text \<open>
  The associated types of a protocol: each member that is a type alias gets a new
  archetype as its underlying type.  Modelled from the spec: \<open>ArchetypeType::getNew\<close> is
  defined in the AST library, which is not part of the sources at hand; by the spec an
  archetype is freshly allocated at each occurrence.  The types of the inheritance clause
  are read after \<open>checkInherited\<close>, which leaves no null type behind when it returns.
\<close>

fun getTypes :: "TypeLoc list \<Rightarrow> abort + ty list" where
  "getTypes [] = Inr []"
| "getTypes (None # ls) = Inl NullType"
| "getTypes (Some T # ls) = andThen (getTypes ls) (\<lambda>Ts. Inr (T # Ts))"

definition assignAssociatedType :: "TypeChecker \<Rightarrow> bool \<Rightarrow> ValueDecl \<Rightarrow> tcstate \<Rightarrow> abort + tcstate" where
  "assignAssociatedType TC IsFirstPass AssocType s =
     andThen (checkInherited TC IsFirstPass (Id AssocType) s) (\<lambda>s1.
     andThen (getTypes (Inherited s1 (Id AssocType))) (\<lambda>InheritedTypes.
       let Index = (if Name AssocType = ''This'' then Some 0 else None);
           UnderlyingTy = ArchetypeType (NextArchetype s1) (Name AssocType) InheritedTypes Index
       in Inr (setTypeLoc (Id AssocType) (Some UnderlyingTy)
                 (s1\<lparr>NextArchetype := Suc (NextArchetype s1)\<rparr>))))"

fun assignAssociatedTypes :: "TypeChecker \<Rightarrow> bool \<Rightarrow> Decl list \<Rightarrow> tcstate \<Rightarrow> abort + tcstate" where
  "assignAssociatedTypes TC IsFirstPass [] s = Inr s"
| "assignAssociatedTypes TC IsFirstPass (TypeAliasDecl AssocType T # ms) s =
     andThen (assignAssociatedType TC IsFirstPass AssocType s)
       (assignAssociatedTypes TC IsFirstPass ms)"
| "assignAssociatedTypes TC IsFirstPass (m # ms) s = assignAssociatedTypes TC IsFirstPass ms s"

text \<open>What an extension does before its members, outside the second pass.\<close>

fun isExtensible :: "ty \<Rightarrow> bool" where
  "isExtensible (NominalType k n) = True"
| "isExtensible ErrorType = True"
| "isExtensible (UnboundGenericType n) = True"
| "isExtensible t = False"

fun isProtocolType :: "ty \<Rightarrow> bool" where
  "isProtocolType (ProtocolType p) = True"
| "isProtocolType t = False"

definition checkExtended :: "TypeChecker \<Rightarrow> bool \<Rightarrow> nat \<Rightarrow> tcstate \<Rightarrow> abort + tcstate" where
  "checkExtended TC IsFirstPass ED s =
     (let s1 = snd (validateTypeLoc TC IsFirstPass ED s) in
      case TypeLocs s1 ED of
        None \<Rightarrow> Inl NullType
      | Some ExtendedTy \<Rightarrow>
          checkInherited TC IsFirstPass ED
            (if \<not> isExtensible ExtendedTy
             then diagnose (non_nominal_extension (isProtocolType ExtendedTy) ExtendedTy) s1
             else s1))"

subsection \<open>The visitor and the entry point\<close>

fun visit :: "TypeChecker \<Rightarrow> bool \<Rightarrow> bool \<Rightarrow> Decl \<Rightarrow> tcstate \<Rightarrow> abort + tcstate"
  and visitMembers :: "TypeChecker \<Rightarrow> bool \<Rightarrow> bool \<Rightarrow> Decl list \<Rightarrow> tcstate \<Rightarrow> abort + tcstate" where
  "visit TC IsFirstPass IsSecondPass (ImportDecl c) s = Inr s"
| "visit TC IsFirstPass IsSecondPass (PatternBindingDecl PBD c P) s =
     visitPatternBindingDecl TC IsFirstPass IsSecondPass PBD c P s"
| "visit TC IsFirstPass IsSecondPass (VarDecl VD isProperty) s = Inr s"
| "visit TC IsFirstPass IsSecondPass (FuncDecl FD ThisType FirstParamIsTyped GP) s =
     visitFuncDecl TC IsFirstPass IsSecondPass FD ThisType FirstParamIsTyped GP s"
| "visit TC IsFirstPass IsSecondPass (ConstructorDecl CD ThisTy Arguments GP) s =
     visitConstructorDecl TC IsFirstPass IsSecondPass CD (Some ThisTy) Arguments GP s"
| "visit TC IsFirstPass IsSecondPass (DestructorDecl DD ThisTy) s =
     visitDestructorDecl TC IsFirstPass IsSecondPass DD ThisTy s"
| "visit TC IsFirstPass IsSecondPass (SubscriptDecl SD Indices) s =
     visitSubscriptDecl TC IsFirstPass IsSecondPass SD Indices s"
| "visit TC IsFirstPass IsSecondPass (TypeAliasDecl TAD DeclaredTy) s =
     visitTypeAliasDecl TC IsFirstPass IsSecondPass TAD DeclaredTy s"
| "visit TC IsFirstPass IsSecondPass (OneOfDecl OOD Members) s =
     andThen (if \<not> IsSecondPass then checkNominal TC IsFirstPass OOD s else Inr s) (\<lambda>s1.
     andThen (visitMembers TC IsFirstPass IsSecondPass Members s1) (\<lambda>s2.
       if \<not> IsFirstPass then checkExplicitConformance (NId OOD) (Some (DeclaredType OOD)) s2
       else Inr s2))"
| "visit TC IsFirstPass IsSecondPass (OneOfElementDecl ED) s =
     visitOneOfElementDecl TC IsFirstPass IsSecondPass ED s"
| "visit TC IsFirstPass IsSecondPass (StructDecl SD Members) s =
     andThen (if \<not> IsSecondPass then checkNominal TC IsFirstPass SD s else Inr s) (\<lambda>s1.
     andThen (visitMembers TC IsFirstPass IsSecondPass Members s1) (\<lambda>s2.
     andThen (if \<not> IsSecondPass then impliedConstructor SD Members s2 else Inr s2) (\<lambda>s3.
       if \<not> IsFirstPass then checkExplicitConformance (NId SD) (Some (DeclaredType SD)) s3
       else Inr s3)))"
| "visit TC IsFirstPass IsSecondPass (ClassDecl CD Members) s =
     andThen (if \<not> IsSecondPass then checkNominal TC IsFirstPass CD s else Inr s) (\<lambda>s1.
     andThen (visitMembers TC IsFirstPass IsSecondPass Members s1) (\<lambda>s2.
       if \<not> IsFirstPass then checkExplicitConformance (NId CD) (Some (DeclaredType CD)) s2
       else Inr s2))"
| "visit TC IsFirstPass IsSecondPass (ProtocolDecl PD c Members) s =
     (if IsSecondPass then Inr s
      else
        andThen (checkInherited TC IsFirstPass PD s) (\<lambda>s1.
        andThen (assignAssociatedTypes TC IsFirstPass Members s1) (\<lambda>s2.
          visitMembers TC IsFirstPass IsSecondPass Members s2)))"
| "visit TC IsFirstPass IsSecondPass (ExtensionDecl ED c Members) s =
     andThen (if \<not> IsSecondPass then checkExtended TC IsFirstPass ED s else Inr s) (\<lambda>s1.
     andThen (visitMembers TC IsFirstPass IsSecondPass Members s1) (\<lambda>s2.
       if \<not> IsFirstPass then checkExplicitConformance ED (TypeLocs s2 ED) s2
       else Inr s2))"
| "visit TC IsFirstPass IsSecondPass (TopLevelCodeDecl c) s = Inl Unreachable"
| "visitMembers TC IsFirstPass IsSecondPass [] s = Inr s"
| "visitMembers TC IsFirstPass IsSecondPass (Member # Members) s =
     andThen (visit TC IsFirstPass IsSecondPass Member s)
       (visitMembers TC IsFirstPass IsSecondPass Members)"

definition typeCheckDecl :: "TypeChecker \<Rightarrow> Decl \<Rightarrow> bool \<Rightarrow> tcstate \<Rightarrow> abort + tcstate" where
  "typeCheckDecl TC D isFirstPass s =
     (let isSecondPass = (\<not> isFirstPass \<and> isModuleContext (getDeclContext D))
      in visit TC isFirstPass isSecondPass D s)"

subsection \<open>Concrete declarations and states\<close>

definition noAttrs :: DeclAttributes where
  "noAttrs = \<lparr>Infix = None, Postfix = False, Assignment = False, Conversion = False,
              Byref = False, AutoClosure = False\<rparr>"

definition IntTy :: ty where
  "IntTy = NominalType StructKind ''Int''"

definition binTy :: ty where
  "binTy = FunctionType (TupleType [(IntTy, ''a'', False), (IntTy, ''b'', False)]) IntTy"

definition initState :: tcstate where
  "initState = \<lparr>Diags = [], Trace = [], Types = (\<lambda>d. None), Attrs = (\<lambda>d. noAttrs),
     TypeLocs = (\<lambda>d. None), Inherited = (\<lambda>d. []), Requirements = (\<lambda>d. []),
     PatternTypes = (\<lambda>d. None), Inits = (\<lambda>d. None), ImplicitThis = (\<lambda>d. None),
     NextArchetype = 0\<rparr>"

definition emptyTU :: TranslationUnit where
  "emptyTU = \<lparr>IsLibrary = False, Decls = [], ImportedModules = []\<rparr>"

text \<open>A declaration named \<open>+\<close> at the top level of the translation unit.\<close>

definition plusDecl :: "nat \<Rightarrow> ValueDecl" where
  "plusDecl i = \<lparr>Id = i, Name = ''+'', IsOperator = True, IsInstanceMember = False,
                  Ctx = TranslationUnitCtx\<rparr>"

definition varDecl :: "nat \<Rightarrow> string \<Rightarrow> DeclContext \<Rightarrow> ValueDecl" where
  "varDecl i n c = \<lparr>Id = i, Name = n, IsOperator = False, IsInstanceMember = False, Ctx = c\<rparr>"

text \<open>
  A translation unit that declares \<open>func +(a : Int, b : Int) -> Int\<close> (declaration 1)
  without attributes and imports two modules, each with an infix \<open>+\<close>: declaration 2 of
  precedence 100 in the first, declaration 3 of precedence 200 in the second.
\<close>

definition twoModulesTU :: TranslationUnit where
  "twoModulesTU = \<lparr>IsLibrary = False, Decls = [Some (plusDecl 1)],
      ImportedModules = [Some (\<lambda>n. if n = ''+'' then [plusDecl 2] else []),
                         Some (\<lambda>n. if n = ''+'' then [plusDecl 3] else [])]\<rparr>"

definition twoModulesState :: tcstate where
  "twoModulesState = initState\<lparr>
      Types := (\<lambda>d. Some binTy),
      Attrs := (\<lambda>d. if d = 2 then noAttrs\<lparr>Infix := Some (LeftAssoc, 100)\<rparr>
                      else if d = 3 then noAttrs\<lparr>Infix := Some (LeftAssoc, 200)\<rparr>
                      else noAttrs)\<rparr>"

text \<open>A state in which every declaration has the error type and no attribute.\<close>

definition errorState :: tcstate where
  "errorState = initState\<lparr>Types := (\<lambda>d. Some ErrorType)\<rparr>"

text \<open>A state in which declaration 1 is marked \<open>byref\<close> and \<open>auto_closure\<close>.\<close>

definition byrefState :: tcstate where
  "byrefState = initState\<lparr>Types := (\<lambda>d. Some IntTy),
      Attrs := (\<lambda>d. noAttrs\<lparr>Byref := True, AutoClosure := True\<rparr>)\<rparr>"

text \<open>
  The diagnostics attribute validation can emit on a declaration of error type.
\<close>

definition errorTypeDiags :: "ValueDecl \<Rightarrow> diag set" where
  "errorTypeDiags v = {operator_not_func, infix_not_an_operator, invalid_infix_left_input,
     postfix_not_an_operator, invalid_postfix_input, invalid_decl_attribute ''assignment'',
     assignment_without_byref, conversion_not_instance_method (Name v), binops_infix_left,
     invalid_decl_attribute ''byref'', invalid_decl_attribute ''auto_closure''}"

text \<open>
  Two instances of the rest of the type checker: one in which every check succeeds
  (a validated \<open>TypeLoc\<close> is left as it is, every pattern and variable gets the type
  \<open>Int\<close>, every function body the type \<open>(a : Int, b : Int) -> Int\<close>), and one in which
  every check fails and writes nothing new.
\<close>

definition okTC :: "TranslationUnit \<Rightarrow> TypeChecker" where
  "okTC tu = \<lparr>validateType = (\<lambda>s loc fp. (False, loc)),
     typeCheckPattern = (\<lambda>s P fp. (False, Some IntTy, (\<lambda>d. Some IntTy))),
     typeCheckExpression = (\<lambda>s E T. (False, E)),
     semaFuncExpr = (\<lambda>s d fp. Some binTy),
     coerceToType = (\<lambda>s P T fp. (False, T, (\<lambda>d. T))),
     convertToMaterializable = (\<lambda>s E. None),
     TU = tu\<rparr>"

definition failTC :: "TranslationUnit \<Rightarrow> TypeChecker" where
  "failTC tu = \<lparr>validateType = (\<lambda>s loc fp. (True, loc)),
     typeCheckPattern = (\<lambda>s P fp. (True, PatternTypes s 0, Types s)),
     typeCheckExpression = (\<lambda>s E T. (True, E)),
     semaFuncExpr = (\<lambda>s d fp. None),
     coerceToType = (\<lambda>s P T fp. (True, PatternTypes s 0, Types s)),
     convertToMaterializable = (\<lambda>s E. None),
     TU = tu\<rparr>"

text \<open>
  \<open>subscript (i : Undefined) -> Int\<close> (declaration 1) at the top level, and the case
  \<open>some(Undefined)\<close> (declaration 2) of a oneof \<open>Opt\<close>.
\<close>

definition subscriptD :: Decl where
  "subscriptD = SubscriptDecl (varDecl 1 ''__subscript'' TranslationUnitCtx)
                  (TypedPattern (NamedPattern (varDecl 5 ''i'' FuncCtx)))"

definition elementD :: Decl where
  "elementD = OneOfElementDecl (varDecl 2 ''some'' (OneOfCtx (NominalType OneOfKind ''Opt'')))"

definition undefinedState :: tcstate where
  "undefinedState = initState\<lparr>TypeLocs := (\<lambda>d. Some (IdentifierType ''Undefined''))\<rparr>"

subsection \<open>Auxiliary notions for the proofs\<close>

text \<open>The diagnostics of attribute validation, and those of the generic parameter check.\<close>

fun attributeDiag :: "diag \<Rightarrow> bool" where
  "attributeDiag operator_not_func = True"
| "attributeDiag invalid_arg_count_for_operator = True"
| "attributeDiag custom_operator_addressof = True"
| "attributeDiag infix_not_an_operator = True"
| "attributeDiag invalid_infix_left_input = True"
| "attributeDiag postfix_not_an_operator = True"
| "attributeDiag invalid_postfix_input = True"
| "attributeDiag (invalid_decl_attribute a) = True"
| "attributeDiag assignment_without_byref = True"
| "attributeDiag (assignment_nonvoid t) = True"
| "attributeDiag (conversion_not_instance_method n) = True"
| "attributeDiag (conversion_params n) = True"
| "attributeDiag binops_infix_left = True"
| "attributeDiag d = False"


text \<open>\<open>s'\<close> has the diagnostics of \<open>s\<close> and then some more, each with the property \<open>P\<close>.\<close>

definition diagsExtend :: "(diag \<Rightarrow> bool) \<Rightarrow> tcstate \<Rightarrow> tcstate \<Rightarrow> bool" where
  "diagsExtend P s s' = (\<exists>ds. Diags s' = Diags s @ ds \<and> list_all P ds)"

text \<open>\<open>s'\<close> differs from \<open>s\<close> in attributes and diagnostics at most.\<close>

definition onlyAttrs :: "tcstate \<Rightarrow> tcstate \<Rightarrow> bool" where
  "onlyAttrs s s' = (s' = s\<lparr>Diags := Diags s', Attrs := Attrs s'\<rparr> \<and> diagsExtend attributeDiag s s')"



text \<open>The variables among the members that are not properties, in source order.\<close>

fun nonPropertyVars :: "Decl list \<Rightarrow> ValueDecl list" where
  "nonPropertyVars [] = []"
| "nonPropertyVars (VarDecl v isProperty # ms) =
     (if \<not> isProperty then v # nonPropertyVars ms else nonPropertyVars ms)"
| "nonPropertyVars (m # ms) = nonPropertyVars ms"

text \<open>
  \<open>struct S { var x : Int; var p : Int { get } }\<close> at the top level: the pattern binding of
  \<open>x\<close> (declaration 10), the variable \<open>x\<close> (11), the property \<open>p\<close> (12) and the element
  constructor the parser adds as last member (13).
\<close>

definition structS :: NominalDecl where
  "structS = \<lparr>NId = 1, NCtx = TranslationUnitCtx, DeclaredType = NominalType StructKind ''S'',
     DeclaredTypeInContext = NominalType StructKind ''S'', GenericParams = None\<rparr>"

definition structSMembers :: "Decl list" where
  "structSMembers =
     [PatternBindingDecl 10 StructCtx (TypedPattern (NamedPattern (varDecl 11 ''x'' StructCtx))),
      VarDecl (varDecl 11 ''x'' StructCtx) False,
      VarDecl (varDecl 12 ''p'' StructCtx) True,
      OneOfElementDecl (varDecl 13 ''S'' StructCtx)]"

text \<open>The calls made, of a visit that returns.\<close>

fun traceOf :: "abort + tcstate \<Rightarrow> event list option" where
  "traceOf (Inl e) = None"
| "traceOf (Inr s) = Some (Trace s)"

text \<open>
  \<open>var x : Int = 1\<close> at the top level: the pattern binding is declaration 10, its
  initializer is expression 20, the variable \<open>x\<close> is declaration 11.
\<close>

definition xPattern :: Pattern where
  "xPattern = TypedPattern (NamedPattern (varDecl 11 ''x'' TranslationUnitCtx))"

definition oneExpr :: Expr where
  "oneExpr = Expr 20 (Some IntTy)"

definition initOneState :: tcstate where
  "initOneState = initState\<lparr>Inits := (\<lambda>d. if d = 10 then Some oneExpr else None)\<rparr>"

definition libraryTU :: TranslationUnit where
  "libraryTU = \<lparr>IsLibrary = True, Decls = [], ImportedModules = []\<rparr>"

text \<open>
  The same binding with the pattern \<open>x\<close>, which is not typed, and the state in which the
  variable \<open>x\<close> has got the type \<open>Int\<close> already.
\<close>

definition xNamed :: Pattern where
  "xNamed = NamedPattern (varDecl 11 ''x'' TranslationUnitCtx)"

definition xTypedState :: tcstate where
  "xTypedState = initOneState\<lparr>Types := (\<lambda>d. if d = 11 then Some IntTy else None)\<rparr>"

text \<open>
  The check of the pattern of a binding is delayed when the translation unit is not a
  library and the binding is at module scope.
\<close>

definition delayed :: "TypeChecker \<Rightarrow> DeclContext \<Rightarrow> bool" where
  "delayed TC C = (\<not> IsLibrary (TU TC) \<and> isModuleContext C)"

text \<open>
  What is expected of a binding with the initializer \<open>Init\<close> where the initializer is
  checked: the calls, in order, and the initializer the binding holds afterwards.
  A typed pattern is type-checked first, and its type is the destination type; a
  failure ends the checks.  Then the initializer is type-checked against the
  destination type, which is null for a pattern that is not typed; a failure ends the
  checks.  With a destination type the checked initializer is stored.  Without one the
  checked initializer is converted to a materializable one, the result (the checked
  initializer itself when the conversion gives null) is stored, and the pattern is
  coerced to its type.
\<close>

definition expectedInitializerCalls ::
  "TypeChecker \<Rightarrow> nat \<Rightarrow> Pattern \<Rightarrow> Expr \<Rightarrow> tcstate \<Rightarrow> event list \<times> Expr" where
  "expectedInitializerCalls TC PBD P Init s =
     (let typed = isTypedPattern P;
          pc = typeCheckPattern TC s P False;
          pre = (if typed then [TypeCheckPattern P False] else []);
          s1 = (if typed
                then writePattern PBD P (snd pc) (record_call (TypeCheckPattern P False) s)
                else s);
          DestTy = (if typed then fst (snd pc) else None);
          r = typeCheckExpression TC s1 Init DestTy;
          s2 = record_call (TypeCheckExpression Init DestTy) s1;
          Init2 = (case convertToMaterializable TC s2 (snd r) of
                     None \<Rightarrow> snd r
                   | Some newInit \<Rightarrow> newInit)
      in if typed \<and> fst pc then (pre, Init)
         else if fst r then (pre @ [TypeCheckExpression Init DestTy], Init)
         else if DestTy \<noteq> None then (pre @ [TypeCheckExpression Init DestTy], snd r)
         else (pre @ [TypeCheckExpression Init None, ConvertToMaterializable (snd r),
                      CoerceToType P (ExprType Init2) False], Init2))"

text \<open>The diagnostics, and the \<open>TypeLoc\<close> of a declaration, of a visit that returns.\<close>

fun diagsOf :: "abort + tcstate \<Rightarrow> diag list option" where
  "diagsOf (Inl e) = None"
| "diagsOf (Inr s) = Some (Diags s)"

fun typeLocOf :: "nat \<Rightarrow> abort + tcstate \<Rightarrow> TypeLoc option" where
  "typeLocOf d (Inl e) = None"
| "typeLocOf d (Inr s) = Some (TypeLocs s d)"

text \<open>
  \<open>protocol P : Int { typealias This }\<close> at the top level: the protocol is declaration 1,
  its associated type \<open>This\<close> declaration 2.
\<close>

definition protocolP :: Decl where
  "protocolP = ProtocolDecl 1 TranslationUnitCtx
     [TypeAliasDecl (varDecl 2 ''This'' ProtocolCtx) (IdentifierType ''This'')]"

definition protocolPState :: tcstate where
  "protocolPState = initState\<lparr>Inherited := (\<lambda>d. if d = 1 then [Some IntTy] else [])\<rparr>"

text \<open>
  The \<open>TypeLoc\<close> \<open>l\<close> holds an archetype allocated between the states \<open>s\<close> and \<open>s'\<close>.
\<close>

definition allocatedIn :: "tcstate \<Rightarrow> tcstate \<Rightarrow> TypeLoc \<Rightarrow> bool" where
  "allocatedIn s s' l =
     (\<exists>n nm Ts ix. l = Some (ArchetypeType n nm Ts ix) \<and> NextArchetype s \<le> n \<and> n < NextArchetype s')"

text \<open>The state of \<open>protocolP\<close> once its associated type holds the archetype number 0.\<close>

definition visitedPState :: tcstate where
  "visitedPState = protocolPState\<lparr>
     TypeLocs := (\<lambda>d. if d = 2 then Some (ArchetypeType 0 ''This'' [] (Some 0)) else None),
     NextArchetype := 1\<rparr>"













section \<open>Properties\<close>

subsection \<open>State updates\<close>

lemma diagnose_simps [simp]:
  "Diags (diagnose d s) = Diags s @ [d]"
  "Trace (diagnose d s) = Trace s"
  "Types (diagnose d s) = Types s"
  "Attrs (diagnose d s) = Attrs s"
  "TypeLocs (diagnose d s) = TypeLocs s"
  "Inherited (diagnose d s) = Inherited s"
  "Requirements (diagnose d s) = Requirements s"
  "PatternTypes (diagnose d s) = PatternTypes s"
  "Inits (diagnose d s) = Inits s"
  "ImplicitThis (diagnose d s) = ImplicitThis s"
  "NextArchetype (diagnose d s) = NextArchetype s"
  by (simp_all add: diagnose_def)

lemma record_call_simps [simp]:
  "Diags (record_call e s) = Diags s"
  "Trace (record_call e s) = Trace s @ [e]"
  "Types (record_call e s) = Types s"
  "Attrs (record_call e s) = Attrs s"
  "TypeLocs (record_call e s) = TypeLocs s"
  "Inherited (record_call e s) = Inherited s"
  "Requirements (record_call e s) = Requirements s"
  "PatternTypes (record_call e s) = PatternTypes s"
  "Inits (record_call e s) = Inits s"
  "ImplicitThis (record_call e s) = ImplicitThis s"
  "NextArchetype (record_call e s) = NextArchetype s"
  by (simp_all add: record_call_def)

lemma setAttrs_simps [simp]:
  "Diags (setAttrs d f s) = Diags s"
  "Trace (setAttrs d f s) = Trace s"
  "Types (setAttrs d f s) = Types s"
  "Attrs (setAttrs d f s) = (Attrs s)(d := f (Attrs s d))"
  "TypeLocs (setAttrs d f s) = TypeLocs s"
  "Inherited (setAttrs d f s) = Inherited s"
  "Requirements (setAttrs d f s) = Requirements s"
  "PatternTypes (setAttrs d f s) = PatternTypes s"
  "Inits (setAttrs d f s) = Inits s"
  "ImplicitThis (setAttrs d f s) = ImplicitThis s"
  "NextArchetype (setAttrs d f s) = NextArchetype s"
  by (simp_all add: setAttrs_def)

lemma setType_simps [simp]:
  "Diags (setType d t s) = Diags s"
  "Trace (setType d t s) = Trace s"
  "Types (setType d t s) = (Types s)(d := t)"
  "Attrs (setType d t s) = Attrs s"
  "TypeLocs (setType d t s) = TypeLocs s"
  "Inherited (setType d t s) = Inherited s"
  "Requirements (setType d t s) = Requirements s"
  "PatternTypes (setType d t s) = PatternTypes s"
  "Inits (setType d t s) = Inits s"
  "ImplicitThis (setType d t s) = ImplicitThis s"
  "NextArchetype (setType d t s) = NextArchetype s"
  by (simp_all add: setType_def)

lemma setTypeLoc_simps [simp]:
  "Diags (setTypeLoc d t s) = Diags s"
  "Trace (setTypeLoc d t s) = Trace s"
  "Types (setTypeLoc d t s) = Types s"
  "Attrs (setTypeLoc d t s) = Attrs s"
  "TypeLocs (setTypeLoc d t s) = (TypeLocs s)(d := t)"
  "Inherited (setTypeLoc d t s) = Inherited s"
  "Requirements (setTypeLoc d t s) = Requirements s"
  "PatternTypes (setTypeLoc d t s) = PatternTypes s"
  "Inits (setTypeLoc d t s) = Inits s"
  "ImplicitThis (setTypeLoc d t s) = ImplicitThis s"
  "NextArchetype (setTypeLoc d t s) = NextArchetype s"
  by (simp_all add: setTypeLoc_def)

subsection \<open>Attribute validation\<close>

lemma numArguments_binTy: "numArguments binTy = 2"
  by (simp add: numArguments_def binTy_def)

lemma numArguments_ErrorType: "numArguments ErrorType = - 1"
  by (simp add: numArguments_def)

lemma numArguments_IntTy: "numArguments IntTy = - 1"
  by (simp add: numArguments_def IntTy_def)

text \<open>
  C10.  When attribute validation meets an operator shape violation (an operator that is
  not a function; an operator function with 0 or more than 2 arguments; a 1-argument
  operator function named \<open>&\<close>) it returns after one diagnostic.  No other rule runs:
  the attributes of the declaration are as before, but for \<open>Infix\<close>, which is reset in
  the argument count case only; \<open>Byref\<close> and \<open>AutoClosure\<close> are not cleared and draw no
  diagnostic.
\<close>

theorem validateAttributes_operator_shape_returns_early:
  assumes "Types s (Id v) = Some Ty" and "IsOperator v"
    and "\<not> isFunc \<or> numArguments Ty = 0 \<or> numArguments Ty > 2
         \<or> (numArguments Ty = 1 \<and> Name v = ''&'')"
  shows "\<exists>s' d. validateAttributes tu isFunc v s = Inr s'
       \<and> Diags s' = Diags s @ [d]
       \<and> d = (if \<not> isFunc then operator_not_func
              else if numArguments Ty = 0 \<or> numArguments Ty > 2 then invalid_arg_count_for_operator
              else custom_operator_addressof)
       \<and> Attrs s' = (Attrs s)(Id v := (Attrs s (Id v))\<lparr>Infix :=
             if isFunc \<and> (numArguments Ty = 0 \<or> numArguments Ty > 2) then None
             else Infix (Attrs s (Id v))\<rparr>)
       \<and> Types s' = Types s
       \<and> Byref (Attrs s' (Id v)) = Byref (Attrs s (Id v))
       \<and> AutoClosure (Attrs s' (Id v)) = AutoClosure (Attrs s (Id v))"
  using assms by (auto simp: validateAttributes_def Let_def)

theorem validateAttributes_operator_shape_returns_early_witness:
  "Types byrefState (Id (plusDecl 1)) = Some IntTy \<and> IsOperator (plusDecl 1)
   \<and> (\<exists>s'. validateAttributes emptyTU False (plusDecl 1) byrefState = Inr s'
        \<and> Diags s' = [operator_not_func]
        \<and> Byref (Attrs s' 1) \<and> AutoClosure (Attrs s' 1))"
proof -
  have t: "Types byrefState (Id (plusDecl 1)) = Some IntTy"
    by (simp add: byrefState_def initState_def)
  have o: "IsOperator (plusDecl 1)"
    by (simp add: plusDecl_def)
  have i: "Id (plusDecl 1) = 1"
    by (simp add: plusDecl_def)
  have b: "Byref (Attrs byrefState 1) \<and> AutoClosure (Attrs byrefState 1) \<and> Diags byrefState = []"
    by (simp add: byrefState_def initState_def)
  from validateAttributes_operator_shape_returns_early [OF t o, of False emptyTU, unfolded i]
  obtain s' where r: "validateAttributes emptyTU False (plusDecl 1) byrefState = Inr s'"
    and d: "Diags s' = Diags byrefState @ [operator_not_func]"
    and y: "Byref (Attrs s' 1) = Byref (Attrs byrefState 1)"
    and a: "AutoClosure (Attrs s' 1) = AutoClosure (Attrs byrefState 1)"
    by auto
  have "Diags s' = [operator_not_func] \<and> Byref (Attrs s' 1) \<and> AutoClosure (Attrs s' 1)"
    using d y a b by simp
  then show ?thesis using t o r by blast
qed

text \<open>
  C5.  The code at a binary operator function without \<open>Infix\<close> whose name is infix in two
  imported modules: the attribute of the second module (precedence 200) replaces the one
  found in the first (precedence 100), since no \<open>break\<close> leaves the loop over the modules.
\<close>

theorem validateAttributes_later_module_overrides:
  "\<exists>s'. validateAttributes twoModulesTU True (plusDecl 1) twoModulesState = Inr s'
     \<and> Infix (Attrs s' 1) = Some (LeftAssoc, 200) \<and> Diags s' = []"
  by (simp add: validateAttributes_def validateRest_def checkAssignment_def checkConversion_def
      inheritInfix_def checkByref_def checkAutoClosure_def numArguments_binTy
      twoModulesTU_def twoModulesState_def initState_def plusDecl_def noAttrs_def isInfix_def Let_def)

lemma lookInTranslationUnit_Diags: "Diags (lookInTranslationUnit v ds s) = Diags s"
  by (induction v ds s rule: lookInTranslationUnit.induct) simp_all

lemma lookInFound_Diags: "Diags (lookInFound v es s) = Diags s"
  by (induction v es s rule: lookInFound.induct) simp_all

lemma lookInImportedModules_Diags: "Diags (lookInImportedModules v ms s) = Diags s"
  by (induction v ms s rule: lookInImportedModules.induct) (simp_all add: lookInFound_Diags)

lemma checkAssignment_ErrorType:
  "\<exists>s'. checkAssignment isFunc v ErrorType s = Inr s' \<and>
     (Diags s' = Diags s \<or> Diags s' = Diags s @ [invalid_decl_attribute ''assignment'']
       \<or> Diags s' = Diags s @ [assignment_without_byref])
     \<and> (\<not> Assignment (Attrs s (Id v)) \<longrightarrow> s' = s)"
  by (simp add: checkAssignment_def numArguments_ErrorType)

lemma checkConversion_ErrorType:
  "\<exists>s'. checkConversion isFunc v ErrorType s = Inr s' \<and>
     (Diags s' = Diags s \<or> Diags s' = Diags s @ [conversion_not_instance_method (Name v)])
     \<and> (\<not> Conversion (Attrs s (Id v)) \<longrightarrow> s' = s)"
  by (simp add: checkConversion_def)


lemma inheritInfix_Diags:
  "\<exists>ds. Diags (inheritInfix tu v Ty s) = Diags s @ ds \<and> set ds \<subseteq> {binops_infix_left}"
  by (simp add: inheritInfix_def Let_def lookInTranslationUnit_Diags lookInImportedModules_Diags)

lemma inheritInfix_not_operator: "\<not> IsOperator v \<Longrightarrow> inheritInfix tu v Ty s = s"
  by (simp add: inheritInfix_def)

lemma checkByref_Diags:
  "\<exists>ds. Diags (checkByref v s) = Diags s @ ds \<and> set ds \<subseteq> {invalid_decl_attribute ''byref''}"
  by (simp add: checkByref_def)

lemma checkAutoClosure_Diags:
  "\<exists>ds. Diags (checkAutoClosure v s) = Diags s @ ds
      \<and> set ds \<subseteq> {invalid_decl_attribute ''auto_closure''}"
  by (simp add: checkAutoClosure_def)

lemma validateRest_ErrorType:
  "\<exists>s' ds. validateRest tu isFunc v ErrorType s = Inr s' \<and> Diags s' = Diags s @ ds
     \<and> set ds \<subseteq> errorTypeDiags v
     \<and> (\<not> IsOperator v \<and> Attrs s (Id v) = noAttrs \<longrightarrow> s' = s)"
proof -
  obtain s1 where a: "checkAssignment isFunc v ErrorType s = Inr s1"
    and a1: "Diags s1 = Diags s \<or> Diags s1 = Diags s @ [invalid_decl_attribute ''assignment'']
       \<or> Diags s1 = Diags s @ [assignment_without_byref]"
    and a2: "\<not> Assignment (Attrs s (Id v)) \<longrightarrow> s1 = s"
    using checkAssignment_ErrorType by blast
  obtain s2 where c: "checkConversion isFunc v ErrorType s1 = Inr s2"
    and c1: "Diags s2 = Diags s1 \<or> Diags s2 = Diags s1 @ [conversion_not_instance_method (Name v)]"
    and c2: "\<not> Conversion (Attrs s1 (Id v)) \<longrightarrow> s2 = s1"
    using checkConversion_ErrorType by blast
  define s3 where "s3 = inheritInfix tu v ErrorType s2"
  define s4 where "s4 = checkByref v s3"
  define s5 where "s5 = checkAutoClosure v s4"
  have r: "validateRest tu isFunc v ErrorType s = Inr s5"
    by (simp add: validateRest_def a c s3_def s4_def s5_def)
  obtain d1 where d1: "Diags s1 = Diags s @ d1" "set d1 \<subseteq> errorTypeDiags v"
    using a1 by (auto simp: errorTypeDiags_def)
  obtain d2 where d2: "Diags s2 = Diags s1 @ d2" "set d2 \<subseteq> errorTypeDiags v"
    using c1 by (auto simp: errorTypeDiags_def)
  obtain d3 where d3: "Diags s3 = Diags s2 @ d3" "set d3 \<subseteq> errorTypeDiags v"
    using inheritInfix_Diags [of tu v ErrorType s2] by (auto simp: errorTypeDiags_def s3_def)
  obtain d4 where d4: "Diags s4 = Diags s3 @ d4" "set d4 \<subseteq> errorTypeDiags v"
    using checkByref_Diags [of v s3] by (auto simp: errorTypeDiags_def s4_def)
  obtain d5 where d5: "Diags s5 = Diags s4 @ d5" "set d5 \<subseteq> errorTypeDiags v"
    using checkAutoClosure_Diags [of v s4] by (auto simp: errorTypeDiags_def s5_def)
  have e: "Diags s5 = Diags s @ (d1 @ d2 @ d3 @ d4 @ d5)"
    by (simp add: d1 d2 d3 d4 d5)
  have f: "set (d1 @ d2 @ d3 @ d4 @ d5) \<subseteq> errorTypeDiags v"
    using d1 d2 d3 d4 d5 by simp
  have g: "s5 = s" if "\<not> IsOperator v" "Attrs s (Id v) = noAttrs"
  proof -
    have "s1 = s" using a2 that by (simp add: noAttrs_def)
    moreover have "s2 = s1" using c2 that \<open>s1 = s\<close> by (simp add: noAttrs_def)
    ultimately show ?thesis using that
      by (simp add: s5_def s4_def s3_def inheritInfix_not_operator checkByref_def
          checkAutoClosure_def noAttrs_def)
  qed
  show ?thesis
  proof (intro exI conjI impI)
    show "validateRest tu isFunc v ErrorType s = Inr s5" by (rule r)
    show "Diags s5 = Diags s @ (d1 @ d2 @ d3 @ d4 @ d5)" by (rule e)
    show "set (d1 @ d2 @ d3 @ d4 @ d5) \<subseteq> errorTypeDiags v" by (rule f)
    show "s5 = s" if "\<not> IsOperator v \<and> Attrs s (Id v) = noAttrs"
      using g that by simp
  qed
qed

lemma early_diagnose_ErrorType:
  assumes "d \<in> errorTypeDiags v" and "IsOperator v \<or> Attrs s (Id v) \<noteq> noAttrs"
    and "r = Inr (diagnose d s)"
  shows "\<exists>s' ds. r = Inr s' \<and> Diags s' = Diags s @ ds \<and> set ds \<subseteq> errorTypeDiags v
     \<and> (\<not> IsOperator v \<and> Attrs s (Id v) = noAttrs \<longrightarrow> s' = s)"
proof -
  have "Diags (diagnose d s) = Diags s @ [d] \<and> set [d] \<subseteq> errorTypeDiags v"
    using assms(1) by simp
  then show ?thesis using assms(2,3) by blast
qed

lemma early_reset_ErrorType:
  assumes "d \<in> errorTypeDiags v" and "IsOperator v \<or> Attrs s (Id v) \<noteq> noAttrs"
    and "r = Inr (setAttrs (Id v) f (diagnose d s))"
  shows "\<exists>s' ds. r = Inr s' \<and> Diags s' = Diags s @ ds \<and> set ds \<subseteq> errorTypeDiags v
     \<and> (\<not> IsOperator v \<and> Attrs s (Id v) = noAttrs \<longrightarrow> s' = s)"
proof -
  have "Diags (setAttrs (Id v) f (diagnose d s)) = Diags s @ [d] \<and> set [d] \<subseteq> errorTypeDiags v"
    using assms(1) by simp
  then show ?thesis using assms(2,3) by blast
qed

text \<open>
  C7 (amended).  On a value declaration whose type is the error type, attribute validation
  returns normally and takes the type as having no argument count: it never emits
  \<open>invalid_arg_count_for_operator\<close>, \<open>custom_operator_addressof\<close>, \<open>assignment_nonvoid\<close> or
  \<open>conversion_params\<close>.  The other rules still run and each diagnostic emitted is one of
  \<open>errorTypeDiags\<close>; a declaration that is not an operator and has no attribute draws
  none and is left unchanged.
\<close>

theorem validateAttributes_ErrorType_diagnostics:
  assumes "Types s (Id v) = Some ErrorType"
  shows "\<exists>s' ds. validateAttributes tu isFunc v s = Inr s' \<and> Diags s' = Diags s @ ds
     \<and> set ds \<subseteq> errorTypeDiags v
     \<and> (\<not> IsOperator v \<and> Attrs s (Id v) = noAttrs \<longrightarrow> s' = s)"
proof -
  define A where "A = Attrs s (Id v)"
  have n: "isInfix A \<or> Postfix A \<Longrightarrow> Attrs s (Id v) \<noteq> noAttrs"
    by (auto simp: noAttrs_def isInfix_def A_def)
  have v: "validateAttributes tu isFunc v s =
     (if IsOperator v \<and> \<not> isFunc then Inr (diagnose operator_not_func s)
      else if isInfix A \<and> \<not> IsOperator v then
        Inr (setAttrs (Id v) (\<lambda>a. a\<lparr>Infix := None\<rparr>) (diagnose infix_not_an_operator s))
      else if isInfix A then
        Inr (setAttrs (Id v) (\<lambda>a. a\<lparr>Infix := None\<rparr>) (diagnose invalid_infix_left_input s))
      else if Postfix A \<and> \<not> IsOperator v then
        Inr (setAttrs (Id v) (\<lambda>a. a\<lparr>Postfix := False\<rparr>) (diagnose postfix_not_an_operator s))
      else if Postfix A then
        Inr (setAttrs (Id v) (\<lambda>a. a\<lparr>Postfix := False\<rparr>) (diagnose invalid_postfix_input s))
      else validateRest tu isFunc v ErrorType s)"
    by (simp add: validateAttributes_def assms numArguments_ErrorType Let_def A_def)
  consider (op) "IsOperator v \<and> \<not> isFunc"
    | (inf1) "\<not> (IsOperator v \<and> \<not> isFunc)" "isInfix A \<and> \<not> IsOperator v"
    | (inf2) "\<not> (IsOperator v \<and> \<not> isFunc)" "isInfix A" "IsOperator v"
    | (post1) "\<not> (IsOperator v \<and> \<not> isFunc)" "\<not> isInfix A" "Postfix A \<and> \<not> IsOperator v"
    | (post2) "\<not> (IsOperator v \<and> \<not> isFunc)" "\<not> isInfix A" "Postfix A" "IsOperator v"
    | (rest) "\<not> (IsOperator v \<and> \<not> isFunc)" "\<not> isInfix A" "\<not> Postfix A"
    by blast
  then show ?thesis
  proof cases
    case op
    have eq: "validateAttributes tu isFunc v s = Inr (diagnose operator_not_func s)"
      unfolding v using op by simp
    show ?thesis
      by (rule early_diagnose_ErrorType [OF _ _ eq]) (use op in \<open>simp_all add: errorTypeDiags_def\<close>)
  next
    case inf1
    have eq: "validateAttributes tu isFunc v s =
        Inr (setAttrs (Id v) (\<lambda>a. a\<lparr>Infix := None\<rparr>) (diagnose infix_not_an_operator s))"
      unfolding v using inf1 by simp
    show ?thesis
      by (rule early_reset_ErrorType [OF _ _ eq]) (use inf1 n in \<open>simp_all add: errorTypeDiags_def\<close>)
  next
    case inf2
    have eq: "validateAttributes tu isFunc v s =
        Inr (setAttrs (Id v) (\<lambda>a. a\<lparr>Infix := None\<rparr>) (diagnose invalid_infix_left_input s))"
      unfolding v using inf2 by simp
    show ?thesis
      by (rule early_reset_ErrorType [OF _ _ eq]) (use inf2 in \<open>simp_all add: errorTypeDiags_def\<close>)
  next
    case post1
    have eq: "validateAttributes tu isFunc v s =
        Inr (setAttrs (Id v) (\<lambda>a. a\<lparr>Postfix := False\<rparr>) (diagnose postfix_not_an_operator s))"
      unfolding v using post1 by simp
    show ?thesis
      by (rule early_reset_ErrorType [OF _ _ eq]) (use post1 n in \<open>simp_all add: errorTypeDiags_def\<close>)
  next
    case post2
    have eq: "validateAttributes tu isFunc v s =
        Inr (setAttrs (Id v) (\<lambda>a. a\<lparr>Postfix := False\<rparr>) (diagnose invalid_postfix_input s))"
      unfolding v using post2 by simp
    show ?thesis
      by (rule early_reset_ErrorType [OF _ _ eq]) (use post2 in \<open>simp_all add: errorTypeDiags_def\<close>)
  next
    case rest
    have "validateAttributes tu isFunc v s = validateRest tu isFunc v ErrorType s"
      unfolding v using rest by auto
    then show ?thesis using validateRest_ErrorType [of tu isFunc v s] by simp
  qed
qed

theorem validateAttributes_ErrorType_diagnostics_witness:
  "Types errorState (Id (varDecl 1 ''x'' TranslationUnitCtx)) = Some ErrorType
   \<and> validateAttributes emptyTU False (varDecl 1 ''x'' TranslationUnitCtx) errorState
       = Inr errorState"
proof -
  have t: "Types errorState (Id (varDecl 1 ''x'' TranslationUnitCtx)) = Some ErrorType"
    by (simp add: errorState_def initState_def)
  have n: "\<not> IsOperator (varDecl 1 ''x'' TranslationUnitCtx)
      \<and> Attrs errorState (Id (varDecl 1 ''x'' TranslationUnitCtx)) = noAttrs"
    by (simp add: errorState_def initState_def varDecl_def)
  from validateAttributes_ErrorType_diagnostics [OF t, of emptyTU False] n
  have "validateAttributes emptyTU False (varDecl 1 ''x'' TranslationUnitCtx) errorState
       = Inr errorState"
    by auto
  then show ?thesis using t by simp
qed

text \<open>
  C7 as stated fails: an operator function \<open>+\<close> of error type, without attributes, in a
  translation unit without an infix \<open>+\<close> draws \<open>binops_infix_left\<close>.
\<close>

theorem validateAttributes_ErrorType_counterexample:
  "Types errorState (Id (plusDecl 1)) = Some ErrorType
   \<and> validateAttributes emptyTU True (plusDecl 1) errorState
       = Inr (errorState\<lparr>Diags := [binops_infix_left]\<rparr>)"
  by (simp add: validateAttributes_def validateRest_def checkAssignment_def checkConversion_def
      inheritInfix_def checkByref_def checkAutoClosure_def numArguments_ErrorType
      emptyTU_def errorState_def initState_def plusDecl_def noAttrs_def isInfix_def Let_def
      diagnose_def)

subsection \<open>Frame of attribute validation\<close>

lemma andThen_simps [simp]:
  "andThen (Inl e) f = Inl e"
  "andThen (Inr x) f = f x"
  by (simp_all add: andThen_def)

lemma andThen_Inr_iff: "andThen r f = Inr y \<longleftrightarrow> (\<exists>x. r = Inr x \<and> f x = Inr y)"
  by (cases r) simp_all

lemma diagsExtend_refl: "diagsExtend P s s"
  by (simp add: diagsExtend_def)

lemma diagsExtend_trans: "diagsExtend P a b \<Longrightarrow> diagsExtend P b c \<Longrightarrow> diagsExtend P a c"
  unfolding diagsExtend_def
proof (elim exE conjE)
  fix ds es
  assume "Diags b = Diags a @ ds" "list_all P ds" "Diags c = Diags b @ es" "list_all P es"
  then have "Diags c = Diags a @ (ds @ es) \<and> list_all P (ds @ es)" by simp
  then show "\<exists>ds. Diags c = Diags a @ ds \<and> list_all P ds" by blast
qed


lemma diagsExtend_diagnose: "P d \<Longrightarrow> Diags s' = Diags s @ [d] \<Longrightarrow> diagsExtend P s s'"
  by (simp add: diagsExtend_def)

lemma diagsExtend_mono: "diagsExtend P s s' \<Longrightarrow> (\<And>d. P d \<Longrightarrow> Q d) \<Longrightarrow> diagsExtend Q s s'"
  unfolding diagsExtend_def by (auto simp: list_all_iff)

lemma onlyAttrs_refl: "onlyAttrs s s"
  by (simp add: onlyAttrs_def diagsExtend_refl)

lemma onlyAttrs_trans:
  assumes "onlyAttrs a b" and "onlyAttrs b c"
  shows "onlyAttrs a c"
proof -
  have "b = a\<lparr>Diags := Diags b, Attrs := Attrs b\<rparr>" "c = b\<lparr>Diags := Diags c, Attrs := Attrs c\<rparr>"
    using assms by (simp_all add: onlyAttrs_def)
  then have "c = a\<lparr>Diags := Diags c, Attrs := Attrs c\<rparr>"
    by (metis tcstate.update_convs(1) tcstate.update_convs(4) tcstate.surjective tcstate.select_convs)
  then show ?thesis using assms diagsExtend_trans by (auto simp: onlyAttrs_def)
qed


lemma onlyAttrs_diagnose: "attributeDiag d \<Longrightarrow> onlyAttrs s (diagnose d s)"
  by (simp add: onlyAttrs_def diagsExtend_def diagnose_def)

lemma onlyAttrs_setAttrs: "onlyAttrs s (setAttrs i f s)"
  by (simp add: onlyAttrs_def diagsExtend_def setAttrs_def)

lemma onlyAttrs_reset: "attributeDiag d \<Longrightarrow> onlyAttrs s (setAttrs i f (diagnose d s))"
  by (simp add: onlyAttrs_def diagsExtend_def setAttrs_def diagnose_def)

lemma lookInTranslationUnit_onlyAttrs: "onlyAttrs s (lookInTranslationUnit v ds s)"
  by (induction v ds s rule: lookInTranslationUnit.induct)
    (simp_all add: onlyAttrs_refl onlyAttrs_setAttrs)

lemma lookInFound_onlyAttrs: "onlyAttrs s (lookInFound v es s)"
  by (induction v es s rule: lookInFound.induct)
    (simp_all add: onlyAttrs_refl onlyAttrs_setAttrs)

lemma lookInImportedModules_onlyAttrs: "onlyAttrs s (lookInImportedModules v ms s)"
proof (induction v ms s rule: lookInImportedModules.induct)
  case (3 v Mod ms s)
  then show ?case
    using onlyAttrs_trans [OF lookInFound_onlyAttrs] by simp
qed (simp_all add: onlyAttrs_refl)

lemma inheritInfix_onlyAttrs: "onlyAttrs s (inheritInfix tu v Ty s)"
proof -
  define s2 where "s2 = lookInTranslationUnit v (Decls tu) s"
  define s1 where "s1 = (if Ctx v = TranslationUnitCtx then
       if \<not> isInfix (Attrs s2 (Id v)) then lookInImportedModules v (ImportedModules tu) s2 else s2
     else s)"
  have a: "onlyAttrs s s2" by (simp add: s2_def lookInTranslationUnit_onlyAttrs)
  have b: "onlyAttrs s s1"
    using a onlyAttrs_trans [OF a lookInImportedModules_onlyAttrs]
    by (simp add: s1_def onlyAttrs_refl)
  have c: "onlyAttrs s (diagnose binops_infix_left s1)"
    using onlyAttrs_trans [OF b onlyAttrs_diagnose] by simp
  have eq: "inheritInfix tu v Ty s =
      (if IsOperator v \<and> \<not> isInfix (Attrs s (Id v)) \<and> numArguments Ty \<noteq> 1
       then if \<not> isInfix (Attrs s1 (Id v)) then diagnose binops_infix_left s1 else s1
       else s)"
    by (simp add: inheritInfix_def Let_def s1_def s2_def)
  show ?thesis
    unfolding eq using b c onlyAttrs_refl by auto
qed

lemma checkByref_onlyAttrs: "onlyAttrs s (checkByref v s)"
  by (simp add: checkByref_def onlyAttrs_refl onlyAttrs_reset)

lemma checkAutoClosure_onlyAttrs: "onlyAttrs s (checkAutoClosure v s)"
  by (simp add: checkAutoClosure_def onlyAttrs_refl onlyAttrs_reset)

lemma checkAssignment_onlyAttrs:
  "case checkAssignment isFunc v Ty s of Inl e \<Rightarrow> True | Inr s' \<Rightarrow> onlyAttrs s s'"
  by (simp add: checkAssignment_def onlyAttrs_refl onlyAttrs_reset onlyAttrs_diagnose
      split: option.split list.split)

lemma checkConversion_onlyAttrs:
  "case checkConversion isFunc v Ty s of Inl e \<Rightarrow> True | Inr s' \<Rightarrow> onlyAttrs s s'"
  by (simp add: checkConversion_def Let_def onlyAttrs_refl onlyAttrs_reset
      split: option.split)

lemma validateRest_onlyAttrs:
  assumes "validateRest tu isFunc v Ty s = Inr s'"
  shows "onlyAttrs s s'"
proof -
  obtain s1 s2 where a: "checkAssignment isFunc v Ty s = Inr s1"
    and c: "checkConversion isFunc v Ty s1 = Inr s2"
    and r: "s' = checkAutoClosure v (checkByref v (inheritInfix tu v Ty s2))"
    using assms by (auto simp: validateRest_def split: sum.splits)
  have "onlyAttrs s s1"
    using checkAssignment_onlyAttrs [where isFunc = isFunc and v = v and Ty = Ty and s = s] a
    by simp
  moreover have "onlyAttrs s1 s2"
    using checkConversion_onlyAttrs [where isFunc = isFunc and v = v and Ty = Ty and s = s1] c
    by simp
  moreover have "onlyAttrs s2 s'"
    unfolding r
    by (rule onlyAttrs_trans [OF inheritInfix_onlyAttrs
          onlyAttrs_trans [OF checkByref_onlyAttrs checkAutoClosure_onlyAttrs]])
  ultimately show ?thesis by (blast intro: onlyAttrs_trans)
qed

lemma validateAttributes_onlyAttrs:
  assumes "validateAttributes tu isFunc v s = Inr s'"
  shows "onlyAttrs s s'"
proof (cases "Types s (Id v)")
  case None
  then show ?thesis using assms by (simp add: validateAttributes_def)
next
  case (Some Ty)
  have "validateRest tu isFunc v Ty s = Inr s' \<or> (\<exists>d. attributeDiag d \<and> s' = diagnose d s)
      \<or> (\<exists>d f. attributeDiag d \<and> s' = setAttrs (Id v) f (diagnose d s))"
    using assms unfolding validateAttributes_def Some Let_def option.case
    by (simp split: if_split_asm) (use attributeDiag.simps in blast)+
  then show ?thesis
    using validateRest_onlyAttrs onlyAttrs_diagnose onlyAttrs_reset by blast
qed

subsection \<open>Population of the type slot\<close>

text \<open>
  C1.  The code at a oneof element whose payload type fails validation, and at a subscript
  at module scope whose index pattern fails type-checking, checked in the first pass and
  then in the second: the type slot of the declaration is still unset.
\<close>

theorem typeCheckDecl_leaves_type_unset:
  "(\<exists>s1. typeCheckDecl (failTC emptyTU) elementD True undefinedState = Inr s1
       \<and> Types s1 2 = None)
   \<and> (\<exists>s1 s2. typeCheckDecl (failTC emptyTU) subscriptD True undefinedState = Inr s1
       \<and> typeCheckDecl (failTC emptyTU) subscriptD False s1 = Inr s2
       \<and> Types s2 1 = None)"
  by (simp add: typeCheckDecl_def elementD_def subscriptD_def varDecl_def
      visitOneOfElementDecl_def visitSubscriptDecl_def typeCheckPatternOf_def writePattern_def
      validateTypeLoc_def failTC_def undefinedState_def initState_def Let_def)

subsection \<open>Iteration\<close>

lemma forEach_rel:
  assumes step: "\<And>x s s'. f x s = Inr s' \<Longrightarrow> R s s'"
    and refl: "\<And>s. R s s"
    and trans: "\<And>a b c. R a b \<Longrightarrow> R b c \<Longrightarrow> R a c"
  shows "forEach f xs s = Inr s' \<Longrightarrow> R s s'"
proof (induction xs arbitrary: s)
  case Nil
  then show ?case using refl by simp
next
  case (Cons x xs)
  then obtain s1 where a: "f x s = Inr s1" and b: "forEach f xs s1 = Inr s'"
    by (auto split: sum.splits)
  show ?case using trans [OF step [OF a] Cons.IH [OF b]] .
qed

lemma fold_setTypeLoc_simps [simp]:
  "Diags (fold (\<lambda>A. setTypeLoc (f A) (g A)) xs s) = Diags s"
  "Trace (fold (\<lambda>A. setTypeLoc (f A) (g A)) xs s) = Trace s"
  "Types (fold (\<lambda>A. setTypeLoc (f A) (g A)) xs s) = Types s"
  "Attrs (fold (\<lambda>A. setTypeLoc (f A) (g A)) xs s) = Attrs s"
  "Inherited (fold (\<lambda>A. setTypeLoc (f A) (g A)) xs s) = Inherited s"
  "Requirements (fold (\<lambda>A. setTypeLoc (f A) (g A)) xs s) = Requirements s"
  "NextArchetype (fold (\<lambda>A. setTypeLoc (f A) (g A)) xs s) = NextArchetype s"
  by (induction xs arbitrary: s) simp_all

lemma fold_setType_simps [simp]:
  "Diags (fold (\<lambda>v. setType (f v) (g v)) xs s) = Diags s"
  "Trace (fold (\<lambda>v. setType (f v) (g v)) xs s) = Trace s"
  "Attrs (fold (\<lambda>v. setType (f v) (g v)) xs s) = Attrs s"
  "TypeLocs (fold (\<lambda>v. setType (f v) (g v)) xs s) = TypeLocs s"
  "Inherited (fold (\<lambda>v. setType (f v) (g v)) xs s) = Inherited s"
  "Requirements (fold (\<lambda>v. setType (f v) (g v)) xs s) = Requirements s"
  "PatternTypes (fold (\<lambda>v. setType (f v) (g v)) xs s) = PatternTypes s"
  "Inits (fold (\<lambda>v. setType (f v) (g v)) xs s) = Inits s"
  "ImplicitThis (fold (\<lambda>v. setType (f v) (g v)) xs s) = ImplicitThis s"
  "NextArchetype (fold (\<lambda>v. setType (f v) (g v)) xs s) = NextArchetype s"
  by (induction xs arbitrary: s) simp_all

lemma writePattern_simps [simp]:
  "Diags (writePattern D P r s) = Diags s"
  "Trace (writePattern D P r s) = Trace s"
  "Attrs (writePattern D P r s) = Attrs s"
  "TypeLocs (writePattern D P r s) = TypeLocs s"
  "Inherited (writePattern D P r s) = Inherited s"
  "Requirements (writePattern D P r s) = Requirements s"
  "PatternTypes (writePattern D P r s) = (PatternTypes s)(D := fst r)"
  "Inits (writePattern D P r s) = Inits s"
  "ImplicitThis (writePattern D P r s) = ImplicitThis s"
  "NextArchetype (writePattern D P r s) = NextArchetype s"
  by (simp_all add: writePattern_def)

lemma setInherited_simps [simp]:
  "Diags (setInherited D i t s) = Diags s"
  "Trace (setInherited D i t s) = Trace s"
  "Types (setInherited D i t s) = Types s"
  "Attrs (setInherited D i t s) = Attrs s"
  "TypeLocs (setInherited D i t s) = TypeLocs s"
  "Inherited (setInherited D i t s) = (Inherited s)(D := (Inherited s D)[i := t])"
  "Requirements (setInherited D i t s) = Requirements s"
  "NextArchetype (setInherited D i t s) = NextArchetype s"
  by (simp_all add: setInherited_def)

lemma setRequirement_simps [simp]:
  "Diags (setRequirement G i r s) = Diags s"
  "Trace (setRequirement G i r s) = Trace s"
  "Types (setRequirement G i r s) = Types s"
  "Attrs (setRequirement G i r s) = Attrs s"
  "TypeLocs (setRequirement G i r s) = TypeLocs s"
  "Inherited (setRequirement G i r s) = Inherited s"
  "Requirements (setRequirement G i r s) = (Requirements s)(G := (Requirements s G)[i := r])"
  "NextArchetype (setRequirement G i r s) = NextArchetype s"
  by (simp_all add: setRequirement_def)

lemma wireArchetypes_simps [simp]:
  "Diags (wireArchetypes B s) = Diags s"
  "Trace (wireArchetypes B s) = Trace s @ [AssignArchetypes]"
  "Types (wireArchetypes B s) = Types s"
  "Attrs (wireArchetypes B s) = Attrs s"
  "Inherited (wireArchetypes B s) = Inherited s"
  "Requirements (wireArchetypes B s) = Requirements s"
  by (simp_all add: wireArchetypes_def Let_def)

subsection \<open>Diagnostics of the generic parameter check\<close>








subsection \<open>What attribute validation keeps, and counting diagnostics\<close>

lemma onlyAttrs_Types: "onlyAttrs s s' \<Longrightarrow> Types s' = Types s"
  unfolding onlyAttrs_def
  by (metis tcstate.select_convs(3) tcstate.surjective tcstate.update_convs(1) tcstate.update_convs(4))

lemma onlyAttrs_Trace: "onlyAttrs s s' \<Longrightarrow> Trace s' = Trace s"
  unfolding onlyAttrs_def
  by (metis tcstate.select_convs(2) tcstate.surjective tcstate.update_convs(1) tcstate.update_convs(4))


subsection \<open>The implied constructor of a struct\<close>

lemma fold_record_call_simps [simp]:
  "Diags (fold (\<lambda>x. record_call (f x)) xs s) = Diags s"
  "Types (fold (\<lambda>x. record_call (f x)) xs s) = Types s"
  "Attrs (fold (\<lambda>x. record_call (f x)) xs s) = Attrs s"
  "TypeLocs (fold (\<lambda>x. record_call (f x)) xs s) = TypeLocs s"
  by (induction xs arbitrary: s) simp_all

lemma checkConformanceOf_Types:
  "checkConformanceOf T I s = Inr s' \<Longrightarrow> Types s' = Types s"
  by (auto simp: checkConformanceOf_def split: option.splits)

lemma checkExplicitConformance_Types:
  "checkExplicitConformance D T s = Inr s' \<Longrightarrow> Types s' = Types s"
  unfolding checkExplicitConformance_def
  by (rule forEach_rel [where R = "\<lambda>a b. Types b = Types a" and f = "checkConformanceOf T"])
    (auto dest: checkConformanceOf_Types)

lemma tupleElts_nonPropertyVars:
  "tupleElts ms s = Inr elts \<Longrightarrow>
     map (\<lambda>e. (Some (fst e), snd e)) elts
       = map (\<lambda>v. (Types s (Id v), Name v, False)) (nonPropertyVars ms)"
proof (induction ms s arbitrary: elts rule: tupleElts.induct)
  case (2 VarD isProperty ms s)
  then show ?case
    by (auto simp: andThen_Inr_iff split: if_splits option.splits)
qed simp_all

text \<open>
  C2.  A struct visited in the first pass, or in neither pass: if the visit returns, the
  last member is the element constructor, and its type slot holds the function type from
  the tuple type \<open>TT\<close> to the declared type of the struct in context, where the fields of
  \<open>TT\<close> are the members that are variables and not properties, in source order, each with
  its name as label, with the type it has once the members are visited, and without
  default value.  The visit after the members leaves the types of these variables as
  they are (but for one that is the element constructor itself).
\<close>

theorem visitStructDecl_implied_constructor:
  assumes "visit TC IsFirstPass False (StructDecl SD Members) s = Inr s'"
  shows "\<exists>s1 s2 ElementCtor TT.
      checkNominal TC IsFirstPass SD s = Inr s1
    \<and> visitMembers TC IsFirstPass False Members s1 = Inr s2
    \<and> Members \<noteq> [] \<and> last Members = OneOfElementDecl ElementCtor
    \<and> map (\<lambda>e. (Some (fst e), snd e)) TT
        = map (\<lambda>v. (Types s2 (Id v), Name v, False)) (nonPropertyVars Members)
    \<and> Types s' (Id ElementCtor) = Some (FunctionType (TupleType TT) (DeclaredTypeInContext SD))
    \<and> (\<forall>v \<in> set (nonPropertyVars Members).
          Id v \<noteq> Id ElementCtor \<longrightarrow> Types s' (Id v) = Types s2 (Id v))"
proof -
  obtain s1 s2 s3 where a: "checkNominal TC IsFirstPass SD s = Inr s1"
    and b: "visitMembers TC IsFirstPass False Members s1 = Inr s2"
    and c: "impliedConstructor SD Members s2 = Inr s3"
    and d: "(if \<not> IsFirstPass then checkExplicitConformance (NId SD) (Some (DeclaredType SD)) s3
             else Inr s3) = Inr s'"
    using assms by (auto simp: andThen_Inr_iff)
  obtain TT where e: "tupleElts Members s2 = Inr TT"
    and f: "(if Members = [] then Inl AssertionFailed
       else (case last Members of
               OneOfElementDecl ElementCtor \<Rightarrow>
                 Inr (setTypeLoc (Id ElementCtor) (Some (TupleType TT))
                        (setType (Id ElementCtor)
                           (Some (FunctionType (TupleType TT) (DeclaredTypeInContext SD))) s2))
             | _ \<Rightarrow> Inl BadCast)) = Inr s3"
    using c unfolding impliedConstructor_def andThen_Inr_iff by blast
  have ne: "Members \<noteq> []" using f by (auto split: if_splits)
  obtain ElementCtor where l: "last Members = OneOfElementDecl ElementCtor"
    and s3: "s3 = setTypeLoc (Id ElementCtor) (Some (TupleType TT))
                    (setType (Id ElementCtor)
                       (Some (FunctionType (TupleType TT) (DeclaredTypeInContext SD))) s2)"
    using f ne by (auto split: Decl.splits)
  have t: "Types s' = Types s3"
    using d checkExplicitConformance_Types by (auto split: if_splits)
  show ?thesis
  proof (intro exI conjI ballI impI)
    show "checkNominal TC IsFirstPass SD s = Inr s1" by (rule a)
    show "visitMembers TC IsFirstPass False Members s1 = Inr s2" by (rule b)
    show "Members \<noteq> []" by (rule ne)
    show "last Members = OneOfElementDecl ElementCtor" by (rule l)
    show "map (\<lambda>e. (Some (fst e), snd e)) TT
        = map (\<lambda>v. (Types s2 (Id v), Name v, False)) (nonPropertyVars Members)"
      by (rule tupleElts_nonPropertyVars [OF e])
    show "Types s' (Id ElementCtor)
        = Some (FunctionType (TupleType TT) (DeclaredTypeInContext SD))"
      by (simp add: t s3)
    show "Types s' (Id v) = Types s2 (Id v)" if "Id v \<noteq> Id ElementCtor" for v
      using that by (simp add: t s3)
  qed
qed

lemma structS_checkNominal: "checkNominal (okTC emptyTU) True structS initState = Inr initState"
  by (simp add: checkNominal_def checkInherited_def checkGenericParams_def structS_def
      initState_def)

lemma structS_members:
  "\<exists>s2. visitMembers (okTC emptyTU) True False structSMembers initState = Inr s2
      \<and> Types s2 11 = Some IntTy"
  by (simp add: structSMembers_def visitPatternBindingDecl_def typeCheckPatternOf_def Let_def
      visitOneOfElementDecl_def visitBoundVar_def writePattern_def
      okTC_def varDecl_def emptyTU_def initState_def noAttrs_def isInfix_def IntTy_def
      validateAttributes_def validateRest_def checkAssignment_def checkConversion_def
      inheritInfix_def checkByref_def checkAutoClosure_def)

theorem visitStructDecl_implied_constructor_witness:
  "\<exists>s'. visit (okTC emptyTU) True False (StructDecl structS structSMembers) initState = Inr s'
     \<and> Types s' 13 = Some (FunctionType (TupleType [(IntTy, ''x'', False)])
                            (NominalType StructKind ''S''))
     \<and> Types s' 11 = Some IntTy"
proof -
  obtain s2 where m: "visitMembers (okTC emptyTU) True False structSMembers initState = Inr s2"
    and x: "Types s2 11 = Some IntTy"
    using structS_members by blast
  have "\<exists>s3. impliedConstructor structS structSMembers s2 = Inr s3"
    using x by (simp add: impliedConstructor_def structSMembers_def varDecl_def)
  then obtain s' where
    h: "visit (okTC emptyTU) True False (StructDecl structS structSMembers) initState = Inr s'"
    using m by (auto simp: structS_checkNominal)
  from visitStructDecl_implied_constructor [OF h]
  obtain s1 t2 ElementCtor TT where
    a: "checkNominal (okTC emptyTU) True structS initState = Inr s1"
    and b: "visitMembers (okTC emptyTU) True False structSMembers s1 = Inr t2"
    and l: "last structSMembers = OneOfElementDecl ElementCtor"
    and tt: "map (\<lambda>e. (Some (fst e), snd e)) TT
        = map (\<lambda>v. (Types t2 (Id v), Name v, False)) (nonPropertyVars structSMembers)"
    and ty: "Types s' (Id ElementCtor)
        = Some (FunctionType (TupleType TT) (DeclaredTypeInContext structS))"
    and fr: "\<forall>v \<in> set (nonPropertyVars structSMembers).
          Id v \<noteq> Id ElementCtor \<longrightarrow> Types s' (Id v) = Types t2 (Id v)"
    by blast
  have t2: "t2 = s2" using a b m by (simp add: structS_checkNominal)
  have e: "ElementCtor = varDecl 13 ''S'' StructCtx"
    using l by (simp add: structSMembers_def)
  have "map (\<lambda>e. (Some (fst e), snd e)) TT = [(Some IntTy, ''x'', False)]"
    using tt x by (simp add: t2 structSMembers_def varDecl_def)
  then have TT: "TT = [(IntTy, ''x'', False)]"
    by (auto simp: map_eq_Cons_conv)
  have "Types s' 13 = Some (FunctionType (TupleType [(IntTy, ''x'', False)])
                            (NominalType StructKind ''S''))"
    using ty by (simp add: e TT varDecl_def structS_def)
  moreover have "Types s' 11 = Some IntTy"
    using fr x by (simp add: t2 e structSMembers_def varDecl_def)
  ultimately show ?thesis using h by blast
qed

subsection \<open>Associated types of a protocol\<close>

lemma checkInheritedAt_slots:
  "checkInheritedAt TC fp D i s = Inr s' \<Longrightarrow>
     NextArchetype s' = NextArchetype s \<and> TypeLocs s' = TypeLocs s"
  by (auto simp: checkInheritedAt_def Let_def split: if_splits option.splits)

lemma checkInherited_slots:
  "checkInherited TC fp D s = Inr s' \<Longrightarrow>
     NextArchetype s' = NextArchetype s \<and> TypeLocs s' = TypeLocs s"
  unfolding checkInherited_def
  by (rule forEach_rel [where R = "\<lambda>a b. NextArchetype b = NextArchetype a \<and> TypeLocs b = TypeLocs a"
        and f = "checkInheritedAt TC fp D"])
    (auto dest: checkInheritedAt_slots)

lemma assignAssociatedType_fresh:
  assumes "assignAssociatedType TC fp A s = Inr s'"
  shows "\<exists>Ts. TypeLocs s' = (TypeLocs s)(Id A \<mapsto>
            ArchetypeType (NextArchetype s) (Name A) Ts
              (if Name A = ''This'' then Some 0 else None))"
    and "NextArchetype s' = Suc (NextArchetype s)"
proof -
  obtain s1 Ts where a: "checkInherited TC fp (Id A) s = Inr s1"
    and b: "s' = setTypeLoc (Id A)
          (Some (ArchetypeType (NextArchetype s1) (Name A) Ts
                   (if Name A = ''This'' then Some 0 else None)))
          (s1\<lparr>NextArchetype := Suc (NextArchetype s1)\<rparr>)"
    using assms by (auto simp: assignAssociatedType_def andThen_Inr_iff Let_def)
  have c: "NextArchetype s1 = NextArchetype s" "TypeLocs s1 = TypeLocs s"
    using checkInherited_slots [OF a] by simp_all
  show "\<exists>Ts. TypeLocs s' = (TypeLocs s)(Id A \<mapsto>
            ArchetypeType (NextArchetype s) (Name A) Ts
              (if Name A = ''This'' then Some 0 else None))"
    using c by (auto simp: b)
  show "NextArchetype s' = Suc (NextArchetype s)"
    using c by (simp add: b)
qed

lemma allocatedIn_widen:
  "allocatedIn a b l \<Longrightarrow> NextArchetype s \<le> NextArchetype a \<Longrightarrow> NextArchetype b \<le> NextArchetype s'
     \<Longrightarrow> allocatedIn s s' l"
  unfolding allocatedIn_def by force

lemma assignAssociatedTypes_fresh:
  "assignAssociatedTypes TC fp ms s = Inr s' \<Longrightarrow>
     NextArchetype s \<le> NextArchetype s'
     \<and> (\<forall>d. TypeLocs s' d = TypeLocs s d \<or> allocatedIn s s' (TypeLocs s' d))
     \<and> (\<forall>A T. TypeAliasDecl A T \<in> set ms \<longrightarrow> allocatedIn s s' (TypeLocs s' (Id A)))"
proof (induction TC fp ms s arbitrary: s' rule: assignAssociatedTypes.induct)
  case (1 TC fp s)
  then show ?case by simp
next
  case (2 TC fp AssocType T ms s)
  from "2.prems" obtain s1 where a: "assignAssociatedType TC fp AssocType s = Inr s1"
    and b: "assignAssociatedTypes TC fp ms s1 = Inr s'"
    by (auto simp: andThen_Inr_iff)
  obtain Ts where t: "TypeLocs s1 = (TypeLocs s)(Id AssocType \<mapsto>
            ArchetypeType (NextArchetype s) (Name AssocType) Ts
              (if Name AssocType = ''This'' then Some 0 else None))"
    using assignAssociatedType_fresh(1) [OF a] by blast
  have n: "NextArchetype s1 = Suc (NextArchetype s)"
    using assignAssociatedType_fresh(2) [OF a] .
  have ih1: "NextArchetype s1 \<le> NextArchetype s'"
    and ih2: "\<And>d. TypeLocs s' d = TypeLocs s1 d \<or> allocatedIn s1 s' (TypeLocs s' d)"
    and ih3: "\<And>A T. TypeAliasDecl A T \<in> set ms \<Longrightarrow> allocatedIn s1 s' (TypeLocs s' (Id A))"
    using "2.IH" [OF b] by blast+
  have w: "allocatedIn s1 s' l \<Longrightarrow> allocatedIn s s' l" for l
    using allocatedIn_widen [of s1 s' l s s'] n by simp
  have h: "allocatedIn s s' (TypeLocs s1 (Id AssocType))"
    using ih1 n by (simp add: t allocatedIn_def)
  have m: "NextArchetype s \<le> NextArchetype s'"
    using ih1 n by simp
  have e: "TypeLocs s' d = TypeLocs s d \<or> allocatedIn s s' (TypeLocs s' d)" for d
  proof (cases "d = Id AssocType")
    case True
    then show ?thesis using ih2 [of d] h w by auto
  next
    case False
    then have "TypeLocs s1 d = TypeLocs s d" by (simp add: t)
    then show ?thesis using ih2 [of d] w by auto
  qed
  have f: "allocatedIn s s' (TypeLocs s' (Id AssocType))"
    using ih2 [of "Id AssocType"] h w by auto
  have g: "allocatedIn s s' (TypeLocs s' (Id A))"
    if "TypeAliasDecl A U \<in> set (TypeAliasDecl AssocType T # ms)" for A U
    using that f ih3 w by auto
  show ?case using m e g by blast
qed auto

text \<open>
  C6 (amended).  A visit of a protocol in the second pass returns the state as it is.
  A visit outside the second pass is not a no-op: if it returns, it has run the
  inheritance check, the loop over the associated types and the visit of the members,
  and after the loop the underlying type of every member that is a type alias is an
  archetype allocated during this visit, whatever the slot held before; an archetype
  allocated before the visit is replaced.
\<close>

theorem visitProtocolDecl_replaces_archetypes:
  "visit TC IsFirstPass True (ProtocolDecl PD c Members) s = Inr s
   \<and> (visit TC IsFirstPass False (ProtocolDecl PD c Members) s = Inr s' \<longrightarrow>
        (\<exists>s1 s2. checkInherited TC IsFirstPass PD s = Inr s1
           \<and> assignAssociatedTypes TC IsFirstPass Members s1 = Inr s2
           \<and> visitMembers TC IsFirstPass False Members s2 = Inr s'
           \<and> (\<forall>A T. TypeAliasDecl A T \<in> set Members \<longrightarrow>
                 allocatedIn s s2 (TypeLocs s2 (Id A))
                 \<and> (\<forall>n nm Ts ix. TypeLocs s (Id A) = Some (ArchetypeType n nm Ts ix)
                        \<longrightarrow> n < NextArchetype s \<longrightarrow> TypeLocs s2 (Id A) \<noteq> TypeLocs s (Id A)))))"
proof (intro conjI impI)
  show "visit TC IsFirstPass True (ProtocolDecl PD c Members) s = Inr s" by simp
next
  assume "visit TC IsFirstPass False (ProtocolDecl PD c Members) s = Inr s'"
  then obtain s1 s2 where a: "checkInherited TC IsFirstPass PD s = Inr s1"
    and b: "assignAssociatedTypes TC IsFirstPass Members s1 = Inr s2"
    and c: "visitMembers TC IsFirstPass False Members s2 = Inr s'"
    by (auto simp: andThen_Inr_iff)
  have n: "NextArchetype s1 = NextArchetype s"
    using checkInherited_slots [OF a] by simp
  have f: "allocatedIn s s2 (TypeLocs s2 (Id A))" if "TypeAliasDecl A T \<in> set Members" for A T
    using assignAssociatedTypes_fresh [OF b] that n
    by (auto simp: allocatedIn_def)
  have g: "TypeLocs s2 (Id A) \<noteq> TypeLocs s (Id A)"
    if "TypeAliasDecl A T \<in> set Members"
      and "TypeLocs s (Id A) = Some (ArchetypeType k nm Ts ix)" and "k < NextArchetype s"
    for A T k nm Ts ix
    using f [OF that(1)] that(2,3) by (auto simp: allocatedIn_def)
  show "\<exists>s1 s2. checkInherited TC IsFirstPass PD s = Inr s1
           \<and> assignAssociatedTypes TC IsFirstPass Members s1 = Inr s2
           \<and> visitMembers TC IsFirstPass False Members s2 = Inr s'
           \<and> (\<forall>A T. TypeAliasDecl A T \<in> set Members \<longrightarrow>
                 allocatedIn s s2 (TypeLocs s2 (Id A))
                 \<and> (\<forall>n nm Ts ix. TypeLocs s (Id A) = Some (ArchetypeType n nm Ts ix)
                        \<longrightarrow> n < NextArchetype s \<longrightarrow> TypeLocs s2 (Id A) \<noteq> TypeLocs s (Id A)))"
    using a b c f g by blast
qed
lemmas protocolP_defs =
  protocolP_def protocolPState_def visitedPState_def initState_def okTC_def emptyTU_def
  varDecl_def checkInherited_def checkInheritedAt_def assignAssociatedType_def
  visitTypeAliasDecl_def validateTypeLoc_def isExistentialType_def IntTy_def Let_def

lemma protocolP_revisit:
  "\<exists>s'. visit (okTC emptyTU) True False protocolP visitedPState = Inr s'"
  by (simp add: protocolP_defs)

theorem visitProtocolDecl_replaces_archetypes_witness:
  "TypeLocs visitedPState 2 = Some (ArchetypeType 0 ''This'' [] (Some 0))
   \<and> 0 < NextArchetype visitedPState
   \<and> (\<exists>s' s1 s2. visit (okTC emptyTU) True False protocolP visitedPState = Inr s'
        \<and> checkInherited (okTC emptyTU) True 1 visitedPState = Inr s1
        \<and> assignAssociatedTypes (okTC emptyTU) True
             [TypeAliasDecl (varDecl 2 ''This'' ProtocolCtx) (IdentifierType ''This'')] s1 = Inr s2
        \<and> allocatedIn visitedPState s2 (TypeLocs s2 2)
        \<and> TypeLocs s2 2 \<noteq> TypeLocs visitedPState 2)"
proof -
  have t: "TypeLocs visitedPState 2 = Some (ArchetypeType 0 ''This'' [] (Some 0))"
    and n: "0 < NextArchetype visitedPState"
    by (simp_all add: visitedPState_def protocolPState_def initState_def)
  obtain s' where h: "visit (okTC emptyTU) True False
      (ProtocolDecl 1 TranslationUnitCtx
         [TypeAliasDecl (varDecl 2 ''This'' ProtocolCtx) (IdentifierType ''This'')])
      visitedPState = Inr s'"
    using protocolP_revisit unfolding protocolP_def by blast
  from visitProtocolDecl_replaces_archetypes [THEN conjunct2, rule_format, OF h]
  obtain s1 s2 where a: "checkInherited (okTC emptyTU) True 1 visitedPState = Inr s1"
    and b: "assignAssociatedTypes (okTC emptyTU) True
             [TypeAliasDecl (varDecl 2 ''This'' ProtocolCtx) (IdentifierType ''This'')] s1 = Inr s2"
    and c: "\<forall>A T. TypeAliasDecl A T \<in>
               set [TypeAliasDecl (varDecl 2 ''This'' ProtocolCtx) (IdentifierType ''This'')] \<longrightarrow>
                 allocatedIn visitedPState s2 (TypeLocs s2 (Id A))
                 \<and> (\<forall>n nm Ts ix. TypeLocs visitedPState (Id A) = Some (ArchetypeType n nm Ts ix)
                        \<longrightarrow> n < NextArchetype visitedPState
                        \<longrightarrow> TypeLocs s2 (Id A) \<noteq> TypeLocs visitedPState (Id A))"
    by blast
  have i: "Id (varDecl 2 ''This'' ProtocolCtx) = 2"
    by (simp add: varDecl_def)
  from c [rule_format, of "varDecl 2 ''This'' ProtocolCtx" "IdentifierType ''This''"]
  have d: "allocatedIn visitedPState s2 (TypeLocs s2 2)"
    and e: "\<forall>n nm Ts ix. TypeLocs visitedPState 2 = Some (ArchetypeType n nm Ts ix)
                        \<longrightarrow> n < NextArchetype visitedPState
                        \<longrightarrow> TypeLocs s2 2 \<noteq> TypeLocs visitedPState 2"
    unfolding i by simp_all
  have "TypeLocs s2 2 \<noteq> TypeLocs visitedPState 2"
    using e t n by blast
  then show ?thesis using t n h a b d unfolding protocolP_def by blast
qed

text \<open>
  C6 as stated fails: \<open>protocol P : Int { typealias This }\<close> visited twice in the first pass.
  The second visit emits \<open>nonprotocol_inherit\<close> again and replaces the archetype number 0 of
  \<open>This\<close> by the archetype number 1.
\<close>

theorem visitProtocolDecl_twice_counterexample:
  "diagsOf (visit (okTC emptyTU) True False protocolP protocolPState)
     = Some [nonprotocol_inherit IntTy]
   \<and> typeLocOf 2 (visit (okTC emptyTU) True False protocolP protocolPState)
     = Some (Some (ArchetypeType 0 ''This'' [] (Some 0)))
   \<and> diagsOf (andThen (visit (okTC emptyTU) True False protocolP protocolPState)
                (visit (okTC emptyTU) True False protocolP))
     = Some [nonprotocol_inherit IntTy, nonprotocol_inherit IntTy]
   \<and> typeLocOf 2 (andThen (visit (okTC emptyTU) True False protocolP protocolPState)
                    (visit (okTC emptyTU) True False protocolP))
     = Some (Some (ArchetypeType 1 ''This'' [] (Some 0)))"
  by (simp add: protocolP_defs)

subsection \<open>Iteration over the indices of a list in the state\<close>


subsection \<open>The phases of checkGenericParams\<close>


















subsection \<open>Archetype assignment\<close>





























subsection \<open>Constructors\<close>

text \<open>
  Attribute validation of a declaration that is not a function returns once the
  declaration has a type: the casts of the type are on the paths of functions only.
\<close>

lemma validateAttributes_nonfunc_returns:
  "Types s (Id v) = Some Ty \<Longrightarrow> \<exists>s'. validateAttributes tu False v s = Inr s'"
  by (simp add: validateAttributes_def validateRest_def checkAssignment_def checkConversion_def
      Let_def)



subsection \<open>Pattern bindings\<close>

lemma onlyAttrs_Inits: "onlyAttrs s s' \<Longrightarrow> Inits s' = Inits s"
  unfolding onlyAttrs_def
  by (metis tcstate.select_convs(9) tcstate.surjective tcstate.update_convs(1) tcstate.update_convs(4))

lemma visitBoundVar_calls:
  assumes "visitBoundVar TC VD s = Inr s'"
  shows "Trace s' = Trace s \<and> Inits s' = Inits s"
proof -
  obtain s0 where "validateAttributes (TU TC) False VD s0 = Inr s'"
    and "Trace s0 = Trace s" and "Inits s0 = Inits s"
    using assms by (auto simp: visitBoundVar_def split: option.splits if_splits)
  then show ?thesis
    using validateAttributes_onlyAttrs onlyAttrs_Trace onlyAttrs_Inits by metis
qed

lemma visitBoundVars_calls:
  "visitBoundVars TC P s = Inr s' \<Longrightarrow> Trace s' = Trace s \<and> Inits s' = Inits s"
  "visitBoundVarsFields TC Ps s = Inr s' \<Longrightarrow> Trace s' = Trace s \<and> Inits s' = Inits s"
proof (induction TC P s and TC Ps s arbitrary: s' and s'
       rule: visitBoundVars_visitBoundVarsFields.induct)
  case (4 TC VD s)
  from "4.prems" show ?case using visitBoundVar_calls by simp
next
  case (7 TC f fs s)
  from "7.prems" obtain s1 where a: "visitBoundVars TC f s = Inr s1"
    and b: "visitBoundVarsFields TC fs s1 = Inr s'"
    by (auto split: sum.splits)
  show ?case using "7.IH"(1) [OF a] "7.IH"(2) [OF a b] by simp
qed simp_all

text \<open>\<open>visitBoundVars\<close> returns when every variable of the pattern has a type.\<close>

lemma visitBoundVar_returns:
  assumes "Types s (Id VD) \<noteq> None"
  shows "\<exists>s'. visitBoundVar TC VD s = Inr s' \<and> (\<forall>x. Types s x \<noteq> None \<longrightarrow> Types s' x \<noteq> None)"
proof -
  obtain T where T: "Types s (Id VD) = Some T" using assms by blast
  define s0 where "s0 = (if \<not> isMaterializable T
             then setType (Id VD) (Some ErrorType) (diagnose (var_type_not_materializable T) s)
             else s)"
  have e: "visitBoundVar TC VD s = validateAttributes (TU TC) False VD s0"
    by (simp add: visitBoundVar_def T s0_def)
  have k: "\<forall>x. Types s x \<noteq> None \<longrightarrow> Types s0 x \<noteq> None"
    by (simp add: s0_def)
  then have "Types s0 (Id VD) \<noteq> None" using assms by blast
  then obtain s' where v: "validateAttributes (TU TC) False VD s0 = Inr s'"
    using validateAttributes_nonfunc_returns by blast
  have "Types s' = Types s0"
    using onlyAttrs_Types [OF validateAttributes_onlyAttrs [OF v]] .
  then show ?thesis using e v k by simp
qed

lemma visitBoundVars_returns:
  "\<forall>v \<in> set (boundVars P). Types s (Id v) \<noteq> None \<Longrightarrow>
     \<exists>s'. visitBoundVars TC P s = Inr s' \<and> (\<forall>x. Types s x \<noteq> None \<longrightarrow> Types s' x \<noteq> None)"
  "\<forall>v \<in> set (concat (map boundVars Ps)). Types s (Id v) \<noteq> None \<Longrightarrow>
     \<exists>s'. visitBoundVarsFields TC Ps s = Inr s' \<and> (\<forall>x. Types s x \<noteq> None \<longrightarrow> Types s' x \<noteq> None)"
proof (induction TC P s and TC Ps s rule: visitBoundVars_visitBoundVarsFields.induct)
  case (4 TC VD s)
  then show ?case using visitBoundVar_returns [of s VD TC] by simp
next
  case (7 TC f fs s)
  from "7.prems" have pf: "\<forall>v \<in> set (boundVars f). Types s (Id v) \<noteq> None"
    and ps: "\<forall>v \<in> set (concat (map boundVars fs)). Types s (Id v) \<noteq> None"
    by simp_all
  from "7.IH"(1) [OF pf] obtain s1 where a: "visitBoundVars TC f s = Inr s1"
    and k1: "\<forall>x. Types s x \<noteq> None \<longrightarrow> Types s1 x \<noteq> None"
    by blast
  have "\<forall>v \<in> set (concat (map boundVars fs)). Types s1 (Id v) \<noteq> None"
    using ps k1 by blast
  from "7.IH"(2) [OF a this] obtain s' where b: "visitBoundVarsFields TC fs s1 = Inr s'"
    and k2: "\<forall>x. Types s1 x \<noteq> None \<longrightarrow> Types s' x \<noteq> None"
    by blast
  show ?case using a b k1 k2 by simp
qed simp_all

text \<open>The checks of a binding with initializer, against what is expected of them.\<close>

lemma checkInit_calls:
  assumes "Inits s PBD = Some Init"
  shows "Trace (fst (checkInit TC PBD P Init s)) = Trace s @ fst (expectedInitializerCalls TC PBD P Init s)"
    and "Inits (fst (checkInit TC PBD P Init s)) PBD = Some (snd (expectedInitializerCalls TC PBD P Init s))"
  using assms
  by (simp_all add: checkInit_def checkInitAgainst_def inferFromInit_def expectedInitializerCalls_def
      typeCheckPatternOf_def coerceToTypeOf_def Let_def split: option.splits)

text \<open>
  C9 (amended).  The type checks of a visit of a pattern binding end in a state \<open>\<sigma>\<close>;
  the visit returns \<open>\<sigma>\<close> or goes on with \<open>visitBoundVars\<close>, which makes no call and keeps
  the initializer; the visit returns when every variable of the pattern has a type in
  \<open>\<sigma>\<close>.  The calls made up to \<open>\<sigma>\<close> are:
  \<^item> in the second pass without delay: one check of the initializer against the type
    of the pattern, when the binding has both, else nothing; the visit returns \<open>\<sigma>\<close>;
  \<^item> in the first pass (in the second pass: when delayed), with or without
    initializer: nothing when the binding is delayed (\<open>\<sigma>\<close> is the state at entry), else
    the check of the pattern alone; the initializer is not type-checked;
  \<^item> outside the first pass (in the second pass: when delayed) and without initializer:
    the check of the pattern alone;
  \<^item> outside the first pass (in the second pass: when delayed) and with an initializer:
    exactly the calls of \<open>expectedInitializerCalls\<close>, and the binding holds the initializer
    \<open>expectedInitializerCalls\<close> gives.
\<close>

theorem visitPatternBindingDecl_calls:
  "\<exists>\<sigma>. (visitPatternBindingDecl TC IsFirstPass IsSecondPass PBD C P s = Inr \<sigma>
         \<or> visitPatternBindingDecl TC IsFirstPass IsSecondPass PBD C P s = visitBoundVars TC P \<sigma>)
    \<and> (\<forall>s'. visitPatternBindingDecl TC IsFirstPass IsSecondPass PBD C P s = Inr s'
           \<longrightarrow> Trace s' = Trace \<sigma> \<and> Inits s' = Inits \<sigma>)
    \<and> ((\<forall>v \<in> set (boundVars P). Types \<sigma> (Id v) \<noteq> None)
           \<longrightarrow> (\<exists>s'. visitPatternBindingDecl TC IsFirstPass IsSecondPass PBD C P s = Inr s'))
    \<and> (IsSecondPass \<and> \<not> delayed TC C \<longrightarrow>
          visitPatternBindingDecl TC IsFirstPass IsSecondPass PBD C P s = Inr \<sigma>
          \<and> Trace \<sigma> = Trace s @ (case (Inits s PBD, PatternTypes s PBD) of
                                    (Some Init, Some DestTy) \<Rightarrow>
                                      [TypeCheckExpression Init (Some DestTy)]
                                  | _ \<Rightarrow> []))
    \<and> (IsFirstPass \<and> (IsSecondPass \<longrightarrow> delayed TC C) \<longrightarrow>
          (if delayed TC C then \<sigma> = s else Trace \<sigma> = Trace s @ [TypeCheckPattern P True]))
    \<and> (\<not> IsFirstPass \<and> (IsSecondPass \<longrightarrow> delayed TC C) \<and> Inits s PBD = None \<longrightarrow>
          Trace \<sigma> = Trace s @ [TypeCheckPattern P False])
    \<and> (\<forall>Init. \<not> IsFirstPass \<and> (IsSecondPass \<longrightarrow> delayed TC C) \<and> Inits s PBD = Some Init \<longrightarrow>
          Trace \<sigma> = Trace s @ fst (expectedInitializerCalls TC PBD P Init s)
          \<and> Inits \<sigma> PBD = Some (snd (expectedInitializerCalls TC PBD P Init s)))"
proof -
  define Delay where "Delay = (\<not> IsLibrary (TU TC) \<and> isModuleContext C)"
  define pc where "pc = typeCheckPatternOf TC IsFirstPass PBD P s"
  define r where "r = (case Inits s PBD of
                   Some Init \<Rightarrow>
                     if \<not> IsFirstPass then checkInit TC PBD P Init s
                     else if \<not> Delay then (snd pc, \<not> fst pc)
                     else (s, True)
                 | None \<Rightarrow>
                     if \<not> IsFirstPass \<or> \<not> Delay then (snd pc, \<not> fst pc)
                     else (s, True))"
  define \<sigma> where "\<sigma> = (if IsSecondPass \<and> \<not> Delay then recheckInit TC PBD s else fst r)"
  let ?v = "visitPatternBindingDecl TC IsFirstPass IsSecondPass PBD C P s"
  have dl: "delayed TC C = Delay" by (simp add: delayed_def Delay_def)
  have tpc: "Trace (snd pc) = Trace s @ [TypeCheckPattern P IsFirstPass]"
    by (simp add: pc_def typeCheckPatternOf_def Let_def)
  have e: "?v = (if IsSecondPass \<and> \<not> Delay then Inr \<sigma>
                 else if snd r then visitBoundVars TC P \<sigma> else Inr \<sigma>)"
    unfolding visitPatternBindingDecl_def Let_def r_def \<sigma>_def pc_def Delay_def by simp
  have A: "?v = Inr \<sigma> \<or> ?v = visitBoundVars TC P \<sigma>"
    unfolding e by simp
  have B: "Trace s' = Trace \<sigma> \<and> Inits s' = Inits \<sigma>" if "?v = Inr s'" for s'
    using A that visitBoundVars_calls(1) [of TC P \<sigma> s'] by auto
  have Cr: "\<exists>s'. ?v = Inr s'" if "\<forall>v \<in> set (boundVars P). Types \<sigma> (Id v) \<noteq> None"
    using A visitBoundVars_returns(1) [OF that, of TC] by auto
  have D1: "?v = Inr \<sigma> \<and> Trace \<sigma> = Trace s @ (case (Inits s PBD, PatternTypes s PBD) of
                                    (Some Init, Some DestTy) \<Rightarrow>
                                      [TypeCheckExpression Init (Some DestTy)]
                                  | _ \<Rightarrow> [])"
    if "IsSecondPass \<and> \<not> delayed TC C"
    using that unfolding e dl
    by (simp add: \<sigma>_def recheckInit_def Let_def split: option.splits)
  have D2: "if delayed TC C then \<sigma> = s else Trace \<sigma> = Trace s @ [TypeCheckPattern P True]"
    if "IsFirstPass \<and> (IsSecondPass \<longrightarrow> delayed TC C)"
    using that tpc unfolding dl by (cases "Inits s PBD") (auto simp: \<sigma>_def r_def)
  have D3: "Trace \<sigma> = Trace s @ [TypeCheckPattern P False]"
    if "\<not> IsFirstPass \<and> (IsSecondPass \<longrightarrow> delayed TC C) \<and> Inits s PBD = None"
    using that tpc unfolding dl by (auto simp: \<sigma>_def r_def)
  have D4: "Trace \<sigma> = Trace s @ fst (expectedInitializerCalls TC PBD P Init s)
          \<and> Inits \<sigma> PBD = Some (snd (expectedInitializerCalls TC PBD P Init s))"
    if "\<not> IsFirstPass \<and> (IsSecondPass \<longrightarrow> delayed TC C) \<and> Inits s PBD = Some Init" for Init
  proof -
    have i: "Inits s PBD = Some Init" using that by simp
    have "\<sigma> = fst (checkInit TC PBD P Init s)"
      using that unfolding dl by (auto simp: \<sigma>_def r_def)
    then show ?thesis using checkInit_calls [OF i, of TC P] by simp
  qed
  show ?thesis
  proof (rule exI [of _ \<sigma>], intro conjI allI impI)
    show "?v = Inr \<sigma> \<or> ?v = visitBoundVars TC P \<sigma>" by (rule A)
    show "Trace s' = Trace \<sigma>" if "?v = Inr s'" for s' using B that by blast
    show "Inits s' = Inits \<sigma>" if "?v = Inr s'" for s' using B that by blast
    show "\<exists>s'. ?v = Inr s'" if "\<forall>v \<in> set (boundVars P). Types \<sigma> (Id v) \<noteq> None"
      using Cr that by blast
    show "?v = Inr \<sigma>" if "IsSecondPass \<and> \<not> delayed TC C" using D1 that by blast
    show "Trace \<sigma> = Trace s @ (case (Inits s PBD, PatternTypes s PBD) of
                                    (Some Init, Some DestTy) \<Rightarrow>
                                      [TypeCheckExpression Init (Some DestTy)]
                                  | _ \<Rightarrow> [])"
      if "IsSecondPass \<and> \<not> delayed TC C" using D1 that by blast
    show "if delayed TC C then \<sigma> = s else Trace \<sigma> = Trace s @ [TypeCheckPattern P True]"
      if "IsFirstPass \<and> (IsSecondPass \<longrightarrow> delayed TC C)" using D2 that by blast
    show "Trace \<sigma> = Trace s @ [TypeCheckPattern P False]"
      if "\<not> IsFirstPass \<and> (IsSecondPass \<longrightarrow> delayed TC C) \<and> Inits s PBD = None"
      using D3 that by blast
    show "Trace \<sigma> = Trace s @ fst (expectedInitializerCalls TC PBD P Init s)"
      if "\<not> IsFirstPass \<and> (IsSecondPass \<longrightarrow> delayed TC C) \<and> Inits s PBD = Some Init" for Init
      using D4 that by blast
    show "Inits \<sigma> PBD = Some (snd (expectedInitializerCalls TC PBD P Init s))"
      if "\<not> IsFirstPass \<and> (IsSecondPass \<longrightarrow> delayed TC C) \<and> Inits s PBD = Some Init" for Init
      using D4 that by blast
  qed
qed

lemmas binding_defs =
  visitPatternBindingDecl_def checkInit_def checkInitAgainst_def inferFromInit_def
  typeCheckPatternOf_def coerceToTypeOf_def Let_def visitBoundVar_def writePattern_def
  xPattern_def xNamed_def oneExpr_def initOneState_def okTC_def varDecl_def emptyTU_def
  libraryTU_def initState_def noAttrs_def isInfix_def IntTy_def validateAttributes_def
  validateRest_def checkAssignment_def checkConversion_def inheritInfix_def checkByref_def
  checkAutoClosure_def

lemma xPattern_second_pass:
  "\<exists>s'. visitPatternBindingDecl (okTC emptyTU) False True 10 TranslationUnitCtx xPattern
           initOneState = Inr s'"
  by (simp add: binding_defs)

lemma xNamed_neither_pass:
  "\<exists>s'. visitPatternBindingDecl (okTC libraryTU) False False 10 TranslationUnitCtx xNamed
           initOneState = Inr s'"
  by (simp add: binding_defs)

lemma xPattern_first_pass:
  "\<exists>s'. visitPatternBindingDecl (okTC libraryTU) True False 10 TranslationUnitCtx xPattern
           initOneState = Inr s' \<and> Trace s' = [TypeCheckPattern xPattern True]"
  by (simp add: binding_defs)

theorem visitPatternBindingDecl_calls_witness:
  "Inits initOneState 10 = Some oneExpr
   \<and> delayed (okTC emptyTU) TranslationUnitCtx \<and> \<not> delayed (okTC libraryTU) TranslationUnitCtx
   \<and> isTypedPattern xPattern \<and> \<not> isTypedPattern xNamed
   \<and> boundVars xPattern = [varDecl 11 ''x'' TranslationUnitCtx]
   \<and> Types xTypedState 11 = Some IntTy
   \<and> (\<exists>s'. visitPatternBindingDecl (okTC emptyTU) False True 10 TranslationUnitCtx xPattern
              initOneState = Inr s'
         \<and> Trace s' = [TypeCheckPattern xPattern False, TypeCheckExpression oneExpr (Some IntTy)]
         \<and> Inits s' 10 = Some oneExpr)
   \<and> (\<exists>s'. visitPatternBindingDecl (okTC libraryTU) False False 10 TranslationUnitCtx xNamed
              initOneState = Inr s'
         \<and> Trace s' = [TypeCheckExpression oneExpr None, ConvertToMaterializable oneExpr,
                        CoerceToType xNamed (Some IntTy) False]
         \<and> Inits s' 10 = Some oneExpr)
   \<and> (\<exists>s'. visitPatternBindingDecl (okTC emptyTU) True False 10 TranslationUnitCtx xPattern
              xTypedState = Inr s'
         \<and> Trace s' = [])"
proof -
  have i: "Inits initOneState 10 = Some oneExpr"
    by (simp add: initOneState_def initState_def)
  have d: "delayed (okTC emptyTU) TranslationUnitCtx"
    and n: "\<not> delayed (okTC libraryTU) TranslationUnitCtx"
    by (simp_all add: delayed_def okTC_def emptyTU_def libraryTU_def)
  have t: "isTypedPattern xPattern" "\<not> isTypedPattern xNamed"
    by (simp_all add: xPattern_def xNamed_def)
  have e: "Trace initOneState = []" "Trace xTypedState = []"
    by (simp_all add: xTypedState_def initOneState_def initState_def)
  have b: "\<forall>v \<in> set (boundVars xPattern). Types xTypedState (Id v) \<noteq> None"
    by (simp add: xPattern_def xTypedState_def varDecl_def)
  have c1: "expectedInitializerCalls (okTC emptyTU) 10 xPattern oneExpr initOneState
      = ([TypeCheckPattern xPattern False, TypeCheckExpression oneExpr (Some IntTy)], oneExpr)"
    by (simp add: expectedInitializerCalls_def Let_def okTC_def xPattern_def)
  have c2: "expectedInitializerCalls (okTC libraryTU) 10 xNamed oneExpr initOneState
      = ([TypeCheckExpression oneExpr None, ConvertToMaterializable oneExpr,
          CoerceToType xNamed (Some IntTy) False], oneExpr)"
    by (simp add: expectedInitializerCalls_def Let_def okTC_def xNamed_def oneExpr_def)
  have w1: "\<exists>s'. visitPatternBindingDecl (okTC emptyTU) False True 10 TranslationUnitCtx xPattern
              initOneState = Inr s'
         \<and> Trace s' = [TypeCheckPattern xPattern False, TypeCheckExpression oneExpr (Some IntTy)]
         \<and> Inits s' 10 = Some oneExpr"
  proof -
    obtain s' where h: "visitPatternBindingDecl (okTC emptyTU) False True 10 TranslationUnitCtx
        xPattern initOneState = Inr s'"
      using xPattern_second_pass by blast
    from visitPatternBindingDecl_calls [of "okTC emptyTU" False True 10 TranslationUnitCtx
        xPattern initOneState]
    obtain \<sigma> :: tcstate where k: "\<forall>s'. visitPatternBindingDecl (okTC emptyTU) False True 10
            TranslationUnitCtx xPattern initOneState = Inr s'
          \<longrightarrow> Trace s' = Trace \<sigma> \<and> Inits s' = Inits \<sigma>"
      and c: "\<forall>Init. \<not> False \<and> (True \<longrightarrow> delayed (okTC emptyTU) TranslationUnitCtx)
            \<and> Inits initOneState 10 = Some Init \<longrightarrow>
          Trace \<sigma> = Trace initOneState
              @ fst (expectedInitializerCalls (okTC emptyTU) 10 xPattern Init initOneState)
          \<and> Inits \<sigma> 10 = Some (snd (expectedInitializerCalls (okTC emptyTU) 10 xPattern Init
                                      initOneState))"
      by (elim exE conjE) blast
    have "Trace s' = Trace \<sigma> \<and> Inits s' = Inits \<sigma>" using k h by blast
    moreover have "Trace \<sigma> = Trace initOneState
              @ fst (expectedInitializerCalls (okTC emptyTU) 10 xPattern oneExpr initOneState)
          \<and> Inits \<sigma> 10 = Some (snd (expectedInitializerCalls (okTC emptyTU) 10 xPattern oneExpr
                                      initOneState))"
      using c i d by blast
    ultimately show ?thesis using h by (simp add: c1 e)
  qed
  have w2: "\<exists>s'. visitPatternBindingDecl (okTC libraryTU) False False 10 TranslationUnitCtx xNamed
              initOneState = Inr s'
         \<and> Trace s' = [TypeCheckExpression oneExpr None, ConvertToMaterializable oneExpr,
                        CoerceToType xNamed (Some IntTy) False]
         \<and> Inits s' 10 = Some oneExpr"
  proof -
    obtain s' where h: "visitPatternBindingDecl (okTC libraryTU) False False 10
        TranslationUnitCtx xNamed initOneState = Inr s'"
      using xNamed_neither_pass by blast
    from visitPatternBindingDecl_calls [of "okTC libraryTU" False False 10 TranslationUnitCtx
        xNamed initOneState]
    obtain \<sigma> :: tcstate where k: "\<forall>s'. visitPatternBindingDecl (okTC libraryTU) False False 10
            TranslationUnitCtx xNamed initOneState = Inr s'
          \<longrightarrow> Trace s' = Trace \<sigma> \<and> Inits s' = Inits \<sigma>"
      and c: "\<forall>Init. \<not> False \<and> (False \<longrightarrow> delayed (okTC libraryTU) TranslationUnitCtx)
            \<and> Inits initOneState 10 = Some Init \<longrightarrow>
          Trace \<sigma> = Trace initOneState
              @ fst (expectedInitializerCalls (okTC libraryTU) 10 xNamed Init initOneState)
          \<and> Inits \<sigma> 10 = Some (snd (expectedInitializerCalls (okTC libraryTU) 10 xNamed Init
                                      initOneState))"
      by (elim exE conjE) blast
    have "Trace s' = Trace \<sigma> \<and> Inits s' = Inits \<sigma>" using k h by blast
    moreover have "Trace \<sigma> = Trace initOneState
              @ fst (expectedInitializerCalls (okTC libraryTU) 10 xNamed oneExpr initOneState)
          \<and> Inits \<sigma> 10 = Some (snd (expectedInitializerCalls (okTC libraryTU) 10 xNamed oneExpr
                                      initOneState))"
      using c i by blast
    ultimately show ?thesis using h by (simp add: c2 e)
  qed
  have w3: "\<exists>s'. visitPatternBindingDecl (okTC emptyTU) True False 10 TranslationUnitCtx xPattern
              xTypedState = Inr s'
         \<and> Trace s' = []"
  proof -
    from visitPatternBindingDecl_calls [of "okTC emptyTU" True False 10 TranslationUnitCtx
        xPattern xTypedState]
    obtain \<sigma> :: tcstate where r: "(\<forall>v \<in> set (boundVars xPattern). Types \<sigma> (Id v) \<noteq> None)
           \<longrightarrow> (\<exists>s'. visitPatternBindingDecl (okTC emptyTU) True False 10 TranslationUnitCtx
                        xPattern xTypedState = Inr s')"
      and k: "\<forall>s'. visitPatternBindingDecl (okTC emptyTU) True False 10 TranslationUnitCtx
                    xPattern xTypedState = Inr s' \<longrightarrow> Trace s' = Trace \<sigma> \<and> Inits s' = Inits \<sigma>"
      and u: "True \<and> (False \<longrightarrow> delayed (okTC emptyTU) TranslationUnitCtx) \<longrightarrow>
            (if delayed (okTC emptyTU) TranslationUnitCtx then \<sigma> = xTypedState
             else Trace \<sigma> = Trace xTypedState @ [TypeCheckPattern xPattern True])"
      by (elim exE conjE) blast
    have "\<sigma> = xTypedState" using u d by simp
    then show ?thesis using r k b e by auto
  qed
  have b': "boundVars xPattern = [varDecl 11 ''x'' TranslationUnitCtx]"
    "Types xTypedState 11 = Some IntTy"
    by (simp_all add: xPattern_def xTypedState_def)
  show ?thesis using i d n t b' w1 w2 w3 by blast
qed

text \<open>
  C9 as stated fails: \<open>var x : Int = 1\<close> at the top level of a library, visited in the
  first pass.  The pattern is type-checked; the initializer is not.
\<close>

theorem visitPatternBindingDecl_first_pass_counterexample:
  "Inits initOneState 10 = Some oneExpr
   \<and> traceOf (visitPatternBindingDecl (okTC libraryTU) True False 10 TranslationUnitCtx xPattern
                initOneState)
       = Some [TypeCheckPattern xPattern True]"
proof -
  obtain s' where "visitPatternBindingDecl (okTC libraryTU) True False 10 TranslationUnitCtx
      xPattern initOneState = Inr s'" and "Trace s' = [TypeCheckPattern xPattern True]"
    using xPattern_first_pass by blast
  then show ?thesis by (simp add: initOneState_def initState_def)
qed

end
